theory Spec2Isabelle
  imports Complex_Main
begin

section \<open>The context store of terminal-gpt (src/context.ts)\<close>

text \<open>
  The module keeps one process-wide vector store. Its state is the closure of
  \<^verbatim>\<open>createVectorStore\<close>: the token budget, the tiktoken encoder, the hnswlib index,
  the array \<^verbatim>\<open>items\<close> and the counter \<^verbatim>\<open>currentTokens\<close>. The two libraries are
  not part of the repository; they enter the model as a record of operations over an
  arbitrary index state, so that every theorem proved for an arbitrary record holds
  whatever the libraries compute. JavaScript numbers are idealised: token counts are
  integers and vector components are reals.
\<close>

subsection \<open>Data\<close>

text \<open>A JavaScript value passed where a string is expected: a string, or anything else.\<close>

datatype jsval = Str string | NotString

text \<open>\<^verbatim>\<open>interface ContextItem { role: string; content: string }\<close>, as stored.\<close>

record ContextItem =
  role :: string
  content :: string

text \<open>
  What a caller can hand to \<^verbatim>\<open>addContext\<close> or \<^verbatim>\<open>addItem\<close> at run time:
  \<^verbatim>\<open>null\<close>/\<^verbatim>\<open>undefined\<close>, or an object with a role and some content.
\<close>

datatype arg = Nullish | Item string jsval

datatype error =
  TypeError | InitFailed | VectorizeFailed | EncodeFailed | IndexFailed | SearchFailed

text \<open>What \<^verbatim>\<open>console.error\<close> receives inside \<^verbatim>\<open>addItem\<close>.\<close>

datatype log = InvalidItem | AddError error

text \<open>
  The outcome of \<^verbatim>\<open>index.searchKnn\<close>: an exception, a result without a
  \<^verbatim>\<open>neighbors\<close> array, or the labels of the neighbours found.
\<close>

datatype knn = SearchThrows | NoNeighbors | Neighbors "nat list"

text \<open>
  The operations of the two libraries. \<open>None\<close> stands for a thrown exception.
  \<open>initIndex d n\<close> is \<^verbatim>\<open>new HierarchicalNSW("cosine", d)\<close> followed by
  \<^verbatim>\<open>initIndex(n)\<close>.
\<close>

record 'ix libs =
  encoding_for_model :: "string \<Rightarrow> (jsval \<Rightarrow> nat list option) option"
  initIndex :: "nat \<Rightarrow> nat \<Rightarrow> 'ix option"
  addPoint :: "real list \<Rightarrow> nat \<Rightarrow> 'ix \<Rightarrow> 'ix option"
  searchKnn :: "real list \<Rightarrow> nat \<Rightarrow> 'ix \<Rightarrow> knn"

record 'ix VectorStore =
  maxTokens :: int
  encoder :: "jsval \<Rightarrow> nat list option"
  index :: 'ix
  items :: "ContextItem list"
  currentTokens :: int

subsection \<open>createVectorStore\<close>

definition dimension :: nat where
  "dimension = 1536"

definition createVectorStore :: "'ix libs \<Rightarrow> string \<Rightarrow> int \<Rightarrow> error + 'ix VectorStore" where
  "createVectorStore lib model mx =
     (case encoding_for_model lib model of
        None \<Rightarrow> Inl InitFailed
      | Some enc \<Rightarrow>
          (case initIndex lib dimension 1000 of
             None \<Rightarrow> Inl InitFailed
           | Some ix \<Rightarrow>
               Inr \<lparr>maxTokens = mx, encoder = enc, index = ix, items = [], currentTokens = 0\<rparr>))"

subsection \<open>textToVector\<close>

text \<open>
  The loop \<^verbatim>\<open>for (i = 0; i < encoded.length && i < dimension; i++)
  vector[i] = encoded[i] / 100\<close>.
\<close>

function vector_loop :: "nat list \<Rightarrow> nat \<Rightarrow> real list \<Rightarrow> real list" where
  "vector_loop encoded i vector =
     (if i < length encoded \<and> i < dimension
      then vector_loop encoded (Suc i) (vector[i := real (encoded ! i) / 100])
      else vector)"
  by pat_completeness auto
termination
  by (relation "measure (\<lambda>(encoded, i, vector). dimension - i)") auto

declare vector_loop.simps [simp del]

definition textToVector :: "(jsval \<Rightarrow> nat list option) \<Rightarrow> jsval \<Rightarrow> error + real list" where
  "textToVector enc text =
     (case enc text of
        None \<Rightarrow> Inl VectorizeFailed
      | Some encoded \<Rightarrow> Inr (vector_loop encoded 0 (replicate dimension 0)))"

subsection \<open>addItem\<close>

text \<open>
  The eviction loop \<^verbatim>\<open>while (currentTokens + tokenCount > maxTokens && items.length > 0)\<close>:
  \<^verbatim>\<open>items.shift()\<close>, then the encoder is asked again for the removed item's length.
  The result is the array, the counter and the exception, if the encoder threw (the
  shift has happened by then, the subtraction has not).
\<close>

fun evict ::
  "(jsval \<Rightarrow> nat list option) \<Rightarrow> int \<Rightarrow> int \<Rightarrow> ContextItem list \<Rightarrow> int
     \<Rightarrow> ContextItem list \<times> int \<times> error option" where
  "evict enc mx tokenCount [] cur = ([], cur, None)"
| "evict enc mx tokenCount (removedItem # rest) cur =
     (if cur + tokenCount > mx
      then (case enc (Str (content removedItem)) of
              None \<Rightarrow> (rest, cur, Some EncodeFailed)
            | Some toks \<Rightarrow> evict enc mx tokenCount rest (cur - int (length toks)))
      else (removedItem # rest, cur, None))"

text \<open>
  The \<^verbatim>\<open>try\<close> block of \<^verbatim>\<open>addItem\<close>: the store when the block is left, what the
  guard logged, and the exception that left it.
\<close>

definition addItem_try ::
  "'ix libs \<Rightarrow> arg \<Rightarrow> 'ix VectorStore \<Rightarrow> 'ix VectorStore \<times> log option \<times> error option" where
  "addItem_try lib item s =
     (case item of
        Nullish \<Rightarrow> (s, Some InvalidItem, None)
      | Item r c \<Rightarrow>
          (case c of
             NotString \<Rightarrow> (s, Some InvalidItem, None)
           | Str text \<Rightarrow>
               (case textToVector (encoder s) (Str text) of
                  Inl e \<Rightarrow> (s, None, Some e)
                | Inr vector \<Rightarrow>
                    (case encoder s (Str text) of
                       None \<Rightarrow> (s, None, Some EncodeFailed)
                     | Some toks \<Rightarrow>
                         (let tokenCount = int (length toks) in
                          case evict (encoder s) (maxTokens s) tokenCount (items s) (currentTokens s) of
                            (its, cur, Some e) \<Rightarrow>
                              (s\<lparr>items := its, currentTokens := cur\<rparr>, None, Some e)
                          | (its, cur, None) \<Rightarrow>
                              (let id' = length its in
                               case addPoint lib vector id' (index s) of
                                 None \<Rightarrow>
                                   (s\<lparr>items := its, currentTokens := cur\<rparr>, None, Some IndexFailed)
                               | Some ix \<Rightarrow>
                                   (s\<lparr>index := ix,
                                      items := its @ [\<lparr>role = r, content = text\<rparr>],
                                      currentTokens := cur + tokenCount\<rparr>, None, None)))))))"

text \<open>
  \<^verbatim>\<open>addItem\<close> returns nothing and throws nothing: the \<^verbatim>\<open>catch\<close> hands the
  exception to \<^verbatim>\<open>console.error\<close>. The result is the store and what was logged.
\<close>

definition addItem :: "'ix libs \<Rightarrow> arg \<Rightarrow> 'ix VectorStore \<Rightarrow> 'ix VectorStore \<times> log option" where
  "addItem lib item s =
     (case addItem_try lib item s of
        (s', lg, Some e) \<Rightarrow> (s', Some (AddError e))
      | (s', lg, None) \<Rightarrow> (s', lg))"

subsection \<open>getRelevantContext\<close>

text \<open>
  The parameter \<open>k\<close> counts the items asked for. It is a natural number here; inside
  the module it is always the default 5.
\<close>

definition not_found :: ContextItem where
  "not_found = \<lparr>role = ''system'', content = ''Context item not found''\<rparr>"

text \<open>\<^verbatim>\<open>items[id] || { role: "system", content: "Context item not found" }\<close>\<close>

definition resolve :: "ContextItem list \<Rightarrow> nat \<Rightarrow> ContextItem" where
  "resolve its id' = (if id' < length its then its ! id' else not_found)"

definition getRelevantContext_try ::
  "'ix libs \<Rightarrow> jsval \<Rightarrow> nat \<Rightarrow> 'ix VectorStore \<Rightarrow> error + ContextItem list" where
  "getRelevantContext_try lib query k s =
     (if length (items s) = 0 then Inr []
      else
        (case textToVector (encoder s) query of
           Inl e \<Rightarrow> Inl e
         | Inr queryVector \<Rightarrow>
             (case searchKnn lib queryVector (min k (length (items s))) (index s) of
                SearchThrows \<Rightarrow> Inl SearchFailed
              | NoNeighbors \<Rightarrow> Inr []
              | Neighbors neighbors \<Rightarrow> Inr (map (resolve (items s)) neighbors))))"

definition getRelevantContext ::
  "'ix libs \<Rightarrow> jsval \<Rightarrow> nat \<Rightarrow> 'ix VectorStore \<Rightarrow> ContextItem list" where
  "getRelevantContext lib query k s =
     (case getRelevantContext_try lib query k s of
        Inl e \<Rightarrow> []
      | Inr found \<Rightarrow> found)"

subsection \<open>The module's exports\<close>

text \<open>
  The exported functions work on the global \<^verbatim>\<open>vectorStore\<close>, made by
  \<^verbatim>\<open>createVectorStore()\<close> with the default model and the default budget of 4096.
  \<^verbatim>\<open>addContext\<close> reads \<^verbatim>\<open>item.content\<close> before anything else, which throws a
  TypeError on \<^verbatim>\<open>null\<close> and \<^verbatim>\<open>undefined\<close>.
\<close>

definition newVectorStore :: "'ix libs \<Rightarrow> error + 'ix VectorStore" where
  "newVectorStore lib = createVectorStore lib ''gpt-4o'' 4096"

definition content_duplicate :: "string \<Rightarrow> jsval \<Rightarrow> ContextItem \<Rightarrow> bool" where
  "content_duplicate r c existingItem \<longleftrightarrow> role existingItem = r \<and> Str (content existingItem) = c"

definition addContext ::
  "'ix libs \<Rightarrow> arg \<Rightarrow> 'ix VectorStore \<Rightarrow> error + 'ix VectorStore \<times> log option" where
  "addContext lib item s =
     (case item of
        Nullish \<Rightarrow> Inl TypeError
      | Item r c \<Rightarrow>
          (let existingItems = getRelevantContext lib c 5 s in
           if \<not> list_ex (content_duplicate r c) existingItems
           then Inr (addItem lib item s)
           else Inr (s, None)))"

definition getContext :: "'ix libs \<Rightarrow> jsval \<Rightarrow> 'ix VectorStore \<Rightarrow> ContextItem list" where
  "getContext lib query s = getRelevantContext lib query 5 s"

definition clearContext :: "'ix libs \<Rightarrow> error + 'ix VectorStore" where
  "clearContext lib = newVectorStore lib"

text \<open>
  A session is a list of calls on the global store. A call that throws leaves the
  global where it was.
\<close>

datatype call = AddContext arg | GetContext jsval | ClearContext

fun step :: "'ix libs \<Rightarrow> call \<Rightarrow> 'ix VectorStore \<Rightarrow> 'ix VectorStore" where
  "step lib (AddContext item) s =
     (case addContext lib item s of Inl e \<Rightarrow> s | Inr (s', lg) \<Rightarrow> s')"
| "step lib (GetContext query) s = s"
| "step lib ClearContext s =
     (case clearContext lib of Inl e \<Rightarrow> s | Inr s' \<Rightarrow> s')"

definition run :: "'ix libs \<Rightarrow> call list \<Rightarrow> 'ix VectorStore \<Rightarrow> 'ix VectorStore" where
  "run lib calls s = fold (step lib) calls s"

subsection \<open>A reference instance of the libraries\<close>

text \<open>
  Modelled from the spec: the ApproxIndex of section 4.2 and the Tokenizer of section 6,
  which are the hnswlib-node and tiktoken packages and not code of this repository. The
  index keeps its points in insertion order, has a fixed capacity and no delete, and
  answers a query by an exact scan by cosine similarity. The specification leaves open
  which of several points at the same distance a query returns; this instance keeps the
  ones added last. Adding a point under a label that is already present replaces the
  vector stored under it, as hnswlib does. The tokenizer gives one token per byte and
  throws on anything that is not a string. Theorems about an arbitrary \<open>lib\<close> do not depend on
  this instance; it serves where a theorem needs a concrete library.
\<close>

record scan_index =
  space_dim :: nat
  max_elements :: nat
  points :: "(nat \<times> real list) list"

definition dot :: "real list \<Rightarrow> real list \<Rightarrow> real" where
  "dot a b = sum_list (map2 (*) a b)"

text \<open>
  One minus the squared cosine of the angle between two vectors. The vectors of
  \<^verbatim>\<open>textToVector\<close> have no negative component, and for such vectors it orders the
  points as the cosine distance does.
\<close>

definition cosine_distance :: "real list \<Rightarrow> real list \<Rightarrow> real" where
  "cosine_distance q p =
     (if dot q q = 0 \<or> dot p p = 0 then 1
      else 1 - (dot q p * dot q p) / (dot q q * dot p p))"

definition scan_initIndex :: "nat \<Rightarrow> nat \<Rightarrow> scan_index option" where
  "scan_initIndex d n = Some \<lparr>space_dim = d, max_elements = n, points = []\<rparr>"

definition scan_addPoint :: "real list \<Rightarrow> nat \<Rightarrow> scan_index \<Rightarrow> scan_index option" where
  "scan_addPoint v label ix =
     (if length v \<noteq> space_dim ix then None
      else if label \<in> set (map fst (points ix))
      then Some (ix\<lparr>points := map (\<lambda>p. if fst p = label then (label, v) else p) (points ix)\<rparr>)
      else if max_elements ix \<le> length (points ix) then None
      else Some (ix\<lparr>points := points ix @ [(label, v)]\<rparr>))"

text \<open>
  The \<open>k\<close> points nearest under the key \<open>f\<close>, nearest first. Where the cut to \<open>k\<close>
  falls among points at the same distance, the ones added last are kept; points at the
  same distance are listed in the order they were added.
\<close>

definition nearest :: "nat \<Rightarrow> ('a \<Rightarrow> real) \<Rightarrow> 'a list \<Rightarrow> 'a list" where
  "nearest k f pts = sort_key f (rev (take k (sort_key f (rev pts))))"

definition scan_searchKnn :: "real list \<Rightarrow> nat \<Rightarrow> scan_index \<Rightarrow> knn" where
  "scan_searchKnn q k ix =
     (if length q \<noteq> space_dim ix \<or> max_elements ix < k then SearchThrows
      else Neighbors (map fst (nearest k (\<lambda>p. cosine_distance q (snd p)) (points ix))))"

definition byte_encoder :: "jsval \<Rightarrow> nat list option" where
  "byte_encoder v = (case v of Str s \<Rightarrow> Some (map of_char s) | NotString \<Rightarrow> None)"

definition scan_lib :: "scan_index libs" where
  "scan_lib =
     \<lparr>encoding_for_model = (\<lambda>model. Some byte_encoder), initIndex = scan_initIndex,
      addPoint = scan_addPoint, searchKnn = scan_searchKnn\<rparr>"

text \<open>The vector of a string under the byte tokenizer, and the store a fresh start gives.\<close>

definition byte_vector :: "string \<Rightarrow> real list" where
  "byte_vector s = vector_loop (map of_char s) 0 (replicate dimension 0)"

definition scan_store :: "scan_index VectorStore" where
  "scan_store =
     \<lparr>maxTokens = 4096, encoder = byte_encoder,
      index = \<lparr>space_dim = dimension, max_elements = 1000, points = []\<rparr>,
      items = [], currentTokens = 0\<rparr>"

subsection \<open>The properties the specification names\<close>

text \<open>The token count the store's encoder reports for a live item.\<close>

definition token_count :: "(jsval \<Rightarrow> nat list option) \<Rightarrow> ContextItem \<Rightarrow> int" where
  "token_count enc it =
     (case enc (Str (content it)) of None \<Rightarrow> 0 | Some toks \<Rightarrow> int (length toks))"

definition encodable :: "(jsval \<Rightarrow> nat list option) \<Rightarrow> ContextItem \<Rightarrow> bool" where
  "encodable enc it \<longleftrightarrow> enc (Str (content it)) \<noteq> None"

definition live_tokens :: "'ix VectorStore \<Rightarrow> int" where
  "live_tokens s = sum_list (map (token_count (encoder s)) (items s))"

text \<open>I1: the counter is the sum over the live items, each of which the encoder accepts.\<close>

definition accounted :: "'ix VectorStore \<Rightarrow> bool" where
  "accounted s \<longleftrightarrow>
     list_all (encodable (encoder s)) (items s) \<and> currentTokens s = live_tokens s"

text \<open>I2: within the budget, or a single item that alone exceeds it.\<close>

definition within_budget :: "'ix VectorStore \<Rightarrow> bool" where
  "within_budget s \<longleftrightarrow> currentTokens s \<le> maxTokens s \<or> length (items s) = 1"

definition store_ok :: "'ix VectorStore \<Rightarrow> bool" where
  "store_ok s \<longleftrightarrow> 0 \<le> maxTokens s \<and> accounted s \<and> within_budget s"

text \<open>
  The part of the index's contract that the length of a query result rests on
  (section 4.2 of the specification): a query for \<open>k\<close> neighbours returns at most \<open>k\<close>.
\<close>

definition knn_bounded :: "'ix libs \<Rightarrow> bool" where
  "knn_bounded lib \<longleftrightarrow>
     (\<forall>q k ix ns. searchKnn lib q k ix = Neighbors ns \<longrightarrow> length ns \<le> k)"

text \<open>The reference store after \<^verbatim>\<open>addContext({role: "user", content: "hello"})\<close>.\<close>

definition one_item_store :: "scan_index VectorStore" where
  "one_item_store =
     scan_store\<lparr>index := \<lparr>space_dim = dimension, max_elements = 1000,
                           points = [(0, byte_vector ''hello'')]\<rparr>,
                 items := [\<lparr>role = ''user'', content = ''hello''\<rparr>], currentTokens := 5\<rparr>"

text \<open>Reference stores written out: the points of the index, the array and the counter.\<close>

definition scan_index_of :: "(nat \<times> real list) list \<Rightarrow> scan_index" where
  "scan_index_of pts = \<lparr>space_dim = dimension, max_elements = 1000, points = pts\<rparr>"

definition scan_state :: "(nat \<times> real list) list \<Rightarrow> ContextItem list \<Rightarrow> int \<Rightarrow> scan_index VectorStore" where
  "scan_state pts its cur =
     \<lparr>maxTokens = 4096, encoder = byte_encoder, index = scan_index_of pts, items = its,
      currentTokens = cur\<rparr>"

definition user_turn :: "string \<Rightarrow> ContextItem" where
  "user_turn str = \<lparr>role = ''user'', content = str\<rparr>"

text \<open>The reference store after each of three inserts of 2048 tokens.\<close>

definition fifo1 :: "scan_index VectorStore" where
  "fifo1 = scan_state [(0, byte_vector (replicate 2048 CHR ''a''))]
             [user_turn (replicate 2048 CHR ''a'')] 2048"

definition fifo2 :: "scan_index VectorStore" where
  "fifo2 = scan_state [(0, byte_vector (replicate 2048 CHR ''a'')),
                       (1, byte_vector (replicate 2048 CHR ''b''))]
             [user_turn (replicate 2048 CHR ''a''), user_turn (replicate 2048 CHR ''b'')] 4096"

definition fifo3 :: "scan_index VectorStore" where
  "fifo3 = scan_state [(0, byte_vector (replicate 2048 CHR ''a'')),
                       (1, byte_vector (replicate 2048 CHR ''c''))]
             [user_turn (replicate 2048 CHR ''b''), user_turn (replicate 2048 CHR ''c'')] 4096"

text \<open>
  A session that fills the reference index: 1000 inserts of different two byte texts,
  the store they lead to, and the store after the first \<open>n\<close> of them.
\<close>

definition short_text :: "nat \<Rightarrow> string" where
  "short_text i = [char_of (48 + i div 32), char_of (64 + i mod 32)]"

definition short_calls :: "nat \<Rightarrow> call list" where
  "short_calls n = map (\<lambda>i. AddContext (Item ''user'' (Str (short_text i)))) [0..<n]"

definition filled_store :: "nat \<Rightarrow> scan_index VectorStore" where
  "filled_store n =
     scan_state (map (\<lambda>i. (i, byte_vector (short_text i))) [0..<n])
       (map (\<lambda>i. user_turn (short_text i)) [0..<n]) (2 * int n)"

text \<open>
  Stores of the reference instance in which every item has the content "hello": the
  index points, five items under five roles, the store after the insert of the user's
  "hello", and the store after a second insert of the system's "hello".
\<close>

definition hello_points :: "nat \<Rightarrow> (nat \<times> real list) list" where
  "hello_points n = map (\<lambda>i. (i, byte_vector ''hello'')) [0..<n]"

definition hello_turn :: "string \<Rightarrow> ContextItem" where
  "hello_turn r = \<lparr>role = r, content = ''hello''\<rparr>"

definition five_roles :: "ContextItem list" where
  "five_roles = map hello_turn [''system'', ''assistant'', ''tool'', ''function'', ''developer'']"

definition dup6 :: "scan_index VectorStore" where
  "dup6 = scan_state (hello_points 6) (five_roles @ [hello_turn ''user'']) 30"

definition dup7 :: "scan_index VectorStore" where
  "dup7 = scan_state (hello_points 7) (five_roles @ [hello_turn ''user'', hello_turn ''system'']) 35"

text \<open>
  Four turns of 1365 tokens each, and the reference store after inserting all four:
  the fourth insert evicts the first turn and goes in under the label 2.
\<close>

definition drift_turn :: "char \<Rightarrow> ContextItem" where
  "drift_turn c = user_turn (replicate 1365 c)"

definition drift_point :: "nat \<Rightarrow> char \<Rightarrow> nat \<times> real list" where
  "drift_point l c = (l, byte_vector (replicate 1365 c))"

definition drift_store :: "scan_index VectorStore" where
  "drift_store =
     scan_state [drift_point 0 CHR ''a'', drift_point 1 CHR ''b'', drift_point 2 CHR ''d'']
       [drift_turn CHR ''b'', drift_turn CHR ''c'', drift_turn CHR ''d''] 4095"

section \<open>Lemmas\<close>

subsection \<open>The eviction loop\<close>

lemma token_count_nonneg: "0 \<le> token_count enc it"
  by (simp add: token_count_def split: option.splits)

lemma sum_token_count_nonneg: "0 \<le> sum_list (map (token_count enc) its)"
  by (induction its) (simp_all add: token_count_nonneg)

lemma list_all_drop: "list_all P xs \<Longrightarrow> list_all P (drop n xs)"
  by (metis append_take_drop_id list_all_append)

text \<open>
  On a store whose counter is the sum over encodable items the loop never throws, leaves
  a suffix of the array with its sum, and stops with room for the new item or with
  nothing left.
\<close>

lemma evict_accounted:
  assumes "list_all (encodable enc) its"
    and "evict enc mx tc its (sum_list (map (token_count enc) its)) = (its', cur', err)"
  shows "err = None \<and> (\<exists>n. its' = drop n its) \<and> cur' = sum_list (map (token_count enc) its')
         \<and> (cur' + tc \<le> mx \<or> its' = [])"
  using assms
proof (induction its arbitrary: its' cur' err)
  case Nil
  then show ?case by simp
next
  case (Cons a its)
  show ?case
  proof (cases "sum_list (map (token_count enc) (a # its)) + tc > mx")
    case False
    with Cons.prems show ?thesis by (auto intro: exI[of _ 0])
  next
    case True
    from Cons.prems(1) obtain toks where toks: "enc (Str (content a)) = Some toks"
      by (auto simp: encodable_def)
    then have tc_a: "token_count enc a = int (length toks)" by (simp add: token_count_def)
    from Cons.prems(2) True toks tc_a
    have ev: "evict enc mx tc its (sum_list (map (token_count enc) its)) = (its', cur', err)"
      by simp
    from Cons.prems(1) have "list_all (encodable enc) its" by simp
    from Cons.IH[OF this ev]
    have r: "err = None \<and> (\<exists>n. its' = drop n its) \<and> cur' = sum_list (map (token_count enc) its')
         \<and> (cur' + tc \<le> mx \<or> its' = [])" .
    then obtain n where "its' = drop n its" by blast
    then have "its' = drop (Suc n) (a # its)" by simp
    with r show ?thesis by blast
  qed
qed

lemma evict_suffix: "\<exists>n. fst (evict enc mx tc its cur) = drop n its"
proof (induction its arbitrary: cur)
  case Nil
  show ?case by simp
next
  case (Cons a its)
  show ?case
  proof (cases "cur + tc > mx")
    case False
    then show ?thesis by (auto intro: exI[of _ 0])
  next
    case True
    show ?thesis
    proof (cases "enc (Str (content a))")
      case None
      with True show ?thesis by (auto intro: exI[of _ 1])
    next
      case (Some toks)
      from Cons.IH[of "cur - int (length toks)"] obtain n
        where "fst (evict enc mx tc its (cur - int (length toks))) = drop n its" ..
      with True Some show ?thesis by (auto intro: exI[of _ "Suc n"])
    qed
  qed
qed

lemma evict_room: "cur + tc \<le> mx \<Longrightarrow> evict enc mx tc its cur = (its, cur, None)"
  by (cases its) simp_all

subsection \<open>addItem case by case\<close>

lemma textToVector_Some:
  "enc q = Some toks \<Longrightarrow> textToVector enc q = Inr (vector_loop toks 0 (replicate dimension 0))"
  by (simp add: textToVector_def)

lemma textToVector_None: "enc q = None \<Longrightarrow> textToVector enc q = Inl VectorizeFailed"
  by (simp add: textToVector_def)

lemma addItem_try_invalid:
  "addItem_try lib Nullish s = (s, Some InvalidItem, None)"
  "addItem_try lib (Item r NotString) s = (s, Some InvalidItem, None)"
  by (simp_all add: addItem_try_def)

lemma addItem_try_unencodable:
  "encoder s (Str str) = None \<Longrightarrow>
   addItem_try lib (Item r (Str str)) s = (s, None, Some VectorizeFailed)"
  by (simp add: addItem_try_def textToVector_None)

lemma addItem_try_encodable:
  assumes "encoder s (Str str) = Some toks"
    and "evict (encoder s) (maxTokens s) (int (length toks)) (items s) (currentTokens s)
         = (its, cur, None)"
  shows "addItem_try lib (Item r (Str str)) s =
         (case addPoint lib (vector_loop toks 0 (replicate dimension 0)) (length its) (index s) of
            None \<Rightarrow> (s\<lparr>items := its, currentTokens := cur\<rparr>, None, Some IndexFailed)
          | Some ix \<Rightarrow> (s\<lparr>index := ix, items := its @ [\<lparr>role = r, content = str\<rparr>],
                         currentTokens := cur + int (length toks)\<rparr>, None, None))"
  using assms by (simp add: addItem_try_def textToVector_Some)

lemma addItem_try_accounted:
  assumes acc: "accounted s"
    and enc: "encoder s (Str str) = Some toks"
  shows "\<exists>n. evict (encoder s) (maxTokens s) (int (length toks)) (items s) (currentTokens s)
             = (drop n (items s), sum_list (map (token_count (encoder s)) (drop n (items s))), None)
           \<and> (sum_list (map (token_count (encoder s)) (drop n (items s))) + int (length toks)
                  \<le> maxTokens s
                \<or> drop n (items s) = [])"
proof -
  obtain its cur err where ev:
    "evict (encoder s) (maxTokens s) (int (length toks)) (items s) (currentTokens s) = (its, cur, err)"
    by (cases "evict (encoder s) (maxTokens s) (int (length toks)) (items s) (currentTokens s)") auto
  from acc have la: "list_all (encodable (encoder s)) (items s)"
    and cur: "currentTokens s = sum_list (map (token_count (encoder s)) (items s))"
    by (simp_all add: accounted_def live_tokens_def)
  from evict_accounted[OF la ev[unfolded cur]] ev show ?thesis by auto
qed

subsection \<open>The invariants are kept\<close>

lemma addItem_store_ok:
  assumes ok: "store_ok s" and add: "addItem lib a s = (s', lg)"
  shows "store_ok s' \<and> encoder s' = encoder s \<and> maxTokens s' = maxTokens s"
proof (cases a)
  case Nullish
  with add ok show ?thesis by (simp add: addItem_def addItem_try_invalid)
next
  case (Item r c)
  show ?thesis
  proof (cases c)
    case NotString
    with Item add ok show ?thesis by (simp add: addItem_def addItem_try_invalid)
  next
    case (Str str)
    show ?thesis
    proof (cases "encoder s (Str str)")
      case None
      with Item Str add ok show ?thesis by (simp add: addItem_def addItem_try_unencodable)
    next
      case (Some toks)
      from ok have acc: "accounted s" and mx: "0 \<le> maxTokens s" by (simp_all add: store_ok_def)
      let ?tc = "token_count (encoder s)"
      from addItem_try_accounted[OF acc Some] obtain n where
        ev: "evict (encoder s) (maxTokens s) (int (length toks)) (items s) (currentTokens s)
             = (drop n (items s), sum_list (map ?tc (drop n (items s))), None)"
        and room: "sum_list (map ?tc (drop n (items s))) + int (length toks) \<le> maxTokens s
                \<or> drop n (items s) = []" by blast
      from acc have la: "list_all (encodable (encoder s)) (drop n (items s))"
        by (simp add: accounted_def list_all_drop)
      have new: "encodable (encoder s) \<lparr>role = r, content = str\<rparr>"
        "?tc \<lparr>role = r, content = str\<rparr> = int (length toks)"
        using Some by (simp_all add: encodable_def token_count_def)
      have nn: "0 \<le> sum_list (map ?tc (drop n (items s)))" by (rule sum_token_count_nonneg)
      show ?thesis
      proof (cases "addPoint lib (vector_loop toks 0 (replicate dimension 0))
                      (length (drop n (items s))) (index s)")
        case None
        with add Item Str addItem_try_encodable[OF Some ev, of lib r]
        have s': "s' = s\<lparr>items := drop n (items s),
                        currentTokens := sum_list (map ?tc (drop n (items s)))\<rparr>"
          by (simp add: addItem_def)
        from room nn mx have "within_budget s'"
          by (auto simp: within_budget_def s')
        with la mx show ?thesis
          by (simp add: store_ok_def accounted_def live_tokens_def s')
      next
        case (Some ix)
        with add Item Str
          addItem_try_encodable[OF \<open>encoder s (Str str) = Some toks\<close> ev, of lib r]
        have s': "s' = s\<lparr>index := ix, items := drop n (items s) @ [\<lparr>role = r, content = str\<rparr>],
                     currentTokens := sum_list (map ?tc (drop n (items s))) + int (length toks)\<rparr>"
          by (simp add: addItem_def)
        from room have "within_budget s'"
          by (auto simp: within_budget_def s')
        with la mx new show ?thesis
          by (simp add: store_ok_def accounted_def live_tokens_def s')
      qed
    qed
  qed
qed

lemma addContext_store_ok:
  assumes "store_ok s" and "addContext lib a s = Inr (s', lg)"
  shows "store_ok s' \<and> encoder s' = encoder s \<and> maxTokens s' = maxTokens s"
proof (cases a)
  case Nullish
  with assms show ?thesis by (simp add: addContext_def)
next
  case (Item r c)
  show ?thesis
  proof (cases "list_ex (content_duplicate r c) (getRelevantContext lib c 5 s)")
    case True
    with Item assms show ?thesis by (simp add: addContext_def)
  next
    case False
    with Item assms(2) have "addItem lib a s = (s', lg)" by (simp add: addContext_def)
    from addItem_store_ok[OF assms(1) this] show ?thesis .
  qed
qed

lemma createVectorStore_store_ok:
  "createVectorStore lib model mx = Inr s \<Longrightarrow> 0 \<le> mx \<Longrightarrow> store_ok s"
  by (auto simp: createVectorStore_def store_ok_def accounted_def live_tokens_def
      within_budget_def split: option.splits)

lemma newVectorStore_store_ok: "newVectorStore lib = Inr s \<Longrightarrow> store_ok s"
  by (auto simp: newVectorStore_def intro: createVectorStore_store_ok)

lemma step_store_ok: "store_ok s \<Longrightarrow> store_ok (step lib c s)"
proof (cases c)
  case (AddContext a)
  assume ok: "store_ok s"
  show ?thesis
  proof (cases "addContext lib a s")
    case (Inl e)
    with AddContext ok show ?thesis by simp
  next
    case (Inr p)
    obtain s' lg where "p = (s', lg)" by (cases p)
    with Inr addContext_store_ok[OF ok, of lib a s' lg] AddContext show ?thesis by simp
  qed
next
  case (GetContext q)
  assume "store_ok s" with GetContext show ?thesis by simp
next
  case ClearContext
  assume ok: "store_ok s"
  show ?thesis
  proof (cases "clearContext lib")
    case (Inl e)
    with ClearContext ok show ?thesis by simp
  next
    case (Inr s')
    then have "store_ok s'"
      by (simp add: clearContext_def newVectorStore_store_ok)
    with Inr ClearContext show ?thesis by simp
  qed
qed

lemma run_store_ok: "store_ok s \<Longrightarrow> store_ok (run lib calls s)"
  unfolding run_def by (induction calls arbitrary: s) (simp_all add: step_store_ok)

subsection \<open>The reference instance\<close>

lemma newVectorStore_scan: "newVectorStore scan_lib = Inr scan_store"
  by (simp add: newVectorStore_def createVectorStore_def scan_lib_def scan_initIndex_def
      scan_store_def)

subsection \<open>The vector loop\<close>

lemma length_vector_loop [simp]: "length (vector_loop e i v) = length v"
  by (induction e i v rule: vector_loop.induct) (subst vector_loop.simps, simp)

lemma vector_loop_nth:
  "j < length v \<Longrightarrow>
   vector_loop e i v ! j =
     (if i \<le> j \<and> j < length e \<and> j < dimension then real (e ! j) / 100 else v ! j)"
proof (induction e i v rule: vector_loop.induct)
  case (1 encoded i vector)
  show ?case
  proof (cases "i < length encoded \<and> i < dimension")
    case False
    then show ?thesis by (subst vector_loop.simps) auto
  next
    case True
    with 1 have "vector_loop encoded (Suc i) (vector[i := real (encoded ! i) / 100]) ! j =
       (if Suc i \<le> j \<and> j < length encoded \<and> j < dimension then real (encoded ! j) / 100
        else vector[i := real (encoded ! i) / 100] ! j)" by simp
    with True 1(2) show ?thesis
      by (subst vector_loop.simps) (cases "j = i"; auto simp: nth_list_update)
  qed
qed

lemma vector_loop_closed:
  "vector_loop toks 0 (replicate dimension 0)
     = map (\<lambda>t. real t / 100) (take dimension toks) @ replicate (dimension - length toks) 0"
  by (rule nth_equalityI) (auto simp: vector_loop_nth nth_append)

subsection \<open>Queries\<close>

lemma getRelevantContext_empty: "items s = [] \<Longrightarrow> getRelevantContext lib q k s = []"
  by (simp add: getRelevantContext_def getRelevantContext_try_def)

lemma newVectorStore_fresh:
  "newVectorStore lib = Inr s \<Longrightarrow> items s = [] \<and> currentTokens s = 0 \<and> maxTokens s = 4096"
  by (auto simp: newVectorStore_def createVectorStore_def split: option.splits)

lemma getRelevantContext_clamp:
  "getRelevantContext lib q k s = getRelevantContext lib q (min k (length (items s))) s"
proof -
  have "min (min k (length (items s))) (length (items s)) = min k (length (items s))" by simp
  then show ?thesis by (simp only: getRelevantContext_def getRelevantContext_try_def)
qed

lemma getRelevantContext_length:
  "knn_bounded lib \<Longrightarrow> length (getRelevantContext lib q k s) \<le> min k (length (items s))"
proof (cases "getRelevantContext_try lib q k s")
  case (Inl e)
  then show ?thesis by (simp add: getRelevantContext_def)
next
  case (Inr found)
  assume b: "knn_bounded lib"
  show ?thesis
  proof (cases "items s = []")
    case True
    then show ?thesis by (simp add: getRelevantContext_def getRelevantContext_try_def)
  next
    case False
    with Inr obtain qv where qv: "textToVector (encoder s) q = Inr qv"
      by (cases "textToVector (encoder s) q") (simp_all add: getRelevantContext_try_def)
    show ?thesis
    proof (cases "searchKnn lib qv (min k (length (items s))) (index s)")
      case (Neighbors ns)
      with b have "length ns \<le> min k (length (items s))" unfolding knn_bounded_def by blast
      with Neighbors qv False show ?thesis
        by (simp add: getRelevantContext_def getRelevantContext_try_def)
    qed (use qv False in \<open>simp_all add: getRelevantContext_def getRelevantContext_try_def\<close>)
  qed
qed

lemma length_nearest: "length (nearest k f pts) \<le> k"
  by (simp add: nearest_def)

lemma scan_knn_bounded: "knn_bounded scan_lib"
  by (auto simp: knn_bounded_def scan_lib_def scan_searchKnn_def length_nearest split: if_splits)

subsection \<open>Where the items of a query and of an insert come from\<close>

lemma resolve_cases: "resolve its l = not_found \<or> resolve its l \<in> set its"
  by (simp add: resolve_def)

lemma getRelevantContext_sources:
  "set (getRelevantContext lib q k s) \<subseteq> insert not_found (set (items s))"
proof (cases "getRelevantContext_try lib q k s")
  case (Inl e)
  then show ?thesis by (simp add: getRelevantContext_def)
next
  case (Inr found)
  have r: "resolve (items s) l \<in> insert not_found (set (items s))" for l
    using resolve_cases [of "items s" l] by auto
  from Inr have "found = [] \<or> (\<exists>ns. found = map (resolve (items s)) ns)"
    by (auto simp: getRelevantContext_try_def split: if_splits sum.splits knn.splits)
  moreover from Inr have "getRelevantContext lib q k s = found"
    by (simp add: getRelevantContext_def)
  ultimately show ?thesis using r by fastforce
qed

lemma addContext_new:
  assumes "\<not> content_duplicate r c not_found"
    and "\<not> list_ex (content_duplicate r c) (items s)"
  shows "addContext lib (Item r c) s = Inr (addItem lib (Item r c) s)"
proof -
  from assms getRelevantContext_sources [of lib c 5 s]
  have "\<not> list_ex (content_duplicate r c) (getRelevantContext lib c 5 s)"
    by (auto simp: list_ex_iff)
  then show ?thesis by (simp add: addContext_def)
qed

lemma addItem_committed:
  assumes enc: "encoder s (Str str) = Some toks"
    and add: "addItem lib (Item r (Str str)) s = (s', None)"
  shows "\<exists>its cur ix.
           evict (encoder s) (maxTokens s) (int (length toks)) (items s) (currentTokens s)
             = (its, cur, None)
           \<and> addPoint lib (vector_loop toks 0 (replicate dimension 0)) (length its) (index s) = Some ix
           \<and> s' = s\<lparr>index := ix, items := its @ [\<lparr>role = r, content = str\<rparr>],
                     currentTokens := cur + int (length toks)\<rparr>"
  using assms
  by (auto simp: addItem_def addItem_try_def textToVector_Some Let_def
      split: prod.splits option.splits)

lemma addContext_suffix:
  assumes "addContext lib a s = Inr (s', lg)"
  shows "\<exists>n. items s' = drop n (items s) \<or> (\<exists>t. items s' = drop n (items s) @ [t])"
proof -
  have "\<exists>n. items (fst (addItem lib a s)) = drop n (items s)
            \<or> (\<exists>t. items (fst (addItem lib a s)) = drop n (items s) @ [t])"
  proof (cases a)
    case Nullish
    then show ?thesis by (auto simp: addItem_def addItem_try_invalid intro: exI[of _ 0])
  next
    case (Item r c)
    show ?thesis
    proof (cases c)
      case NotString
      with Item show ?thesis by (auto simp: addItem_def addItem_try_invalid intro: exI[of _ 0])
    next
      case (Str str)
      show ?thesis
      proof (cases "encoder s (Str str)")
        case None
        with Item Str show ?thesis
          by (auto simp: addItem_def addItem_try_unencodable intro: exI[of _ 0])
      next
        case (Some toks)
        obtain n where "fst (evict (encoder s) (maxTokens s) (int (length toks)) (items s)
            (currentTokens s)) = drop n (items s)"
          using evict_suffix by blast
        with Item Str Some show ?thesis
          by (auto simp: addItem_def addItem_try_def textToVector_Some Let_def
              split: prod.splits option.splits)
      qed
    qed
  qed
  with assms show ?thesis
    by (cases a) (auto simp: addContext_def Let_def split: if_splits intro: exI[of _ 0])
qed

lemma addContext_committed:
  assumes enc: "encoder s (Str str) = Some toks"
    and nf: "\<lparr>role = r, content = str\<rparr> \<noteq> not_found"
    and new: "\<lparr>role = r, content = str\<rparr> \<notin> set (items s)"
    and add: "addContext lib (Item r (Str str)) s = Inr (s', None)"
  shows "\<exists>its cur ix.
           evict (encoder s) (maxTokens s) (int (length toks)) (items s) (currentTokens s)
             = (its, cur, None)
           \<and> addPoint lib (vector_loop toks 0 (replicate dimension 0)) (length its) (index s) = Some ix
           \<and> s' = s\<lparr>index := ix, items := its @ [\<lparr>role = r, content = str\<rparr>],
                     currentTokens := cur + int (length toks)\<rparr>"
proof -
  have eq: "content_duplicate r (Str str) it \<longleftrightarrow> it = \<lparr>role = r, content = str\<rparr>" for it
    by (cases it) (auto simp: content_duplicate_def)
  from nf new have "addContext lib (Item r (Str str)) s = Inr (addItem lib (Item r (Str str)) s)"
    by (intro addContext_new) (auto simp: eq list_ex_iff)
  with add have "addItem lib (Item r (Str str)) s = (s', None)" by simp
  from addItem_committed [OF enc this] show ?thesis .
qed


subsection \<open>Running the reference instance\<close>

lemma scan_store_state: "scan_store = scan_state [] [] 0"
  by (simp add: scan_store_def scan_state_def scan_index_of_def)

lemma length_byte_vector [simp]: "length (byte_vector str) = dimension"
  by (simp add: byte_vector_def)

lemma textToVector_byte: "textToVector byte_encoder (Str str) = Inr (byte_vector str)"
  by (simp add: textToVector_def byte_encoder_def byte_vector_def)

text \<open>addItem on a reference store, once the eviction loop has been run.\<close>

lemma scan_addItem:
  assumes "evict byte_encoder 4096 (int (length str)) its cur = (its', cur', None)"
    and "scan_addPoint (byte_vector str) (length its') (scan_index_of pts) = Some (scan_index_of pts')"
  shows "addItem scan_lib (Item r (Str str)) (scan_state pts its cur)
         = (scan_state pts' (its' @ [\<lparr>role = r, content = str\<rparr>]) (cur' + int (length str)), None)"
  using assms
  by (simp add: addItem_def addItem_try_def textToVector_byte scan_state_def scan_lib_def
      byte_encoder_def)

lemma scan_addPoint_new:
  "l \<notin> set (map fst pts) \<Longrightarrow> length pts < 1000 \<Longrightarrow>
   scan_addPoint (byte_vector str) l (scan_index_of pts) = Some (scan_index_of (pts @ [(l, byte_vector str)]))"
  by (simp add: scan_addPoint_def scan_index_of_def)

lemma scan_addPoint_replace:
  "l \<in> set (map fst pts) \<Longrightarrow>
   scan_addPoint (byte_vector str) l (scan_index_of pts)
     = Some (scan_index_of (map (\<lambda>p. if fst p = l then (l, byte_vector str) else p) pts))"
  by (simp add: scan_addPoint_def scan_index_of_def)

lemma scan_addContext_new:
  assumes "\<lparr>role = r, content = str\<rparr> \<noteq> not_found"
    and "\<lparr>role = r, content = str\<rparr> \<notin> set its"
    and "evict byte_encoder 4096 (int (length str)) its cur = (its', cur', None)"
    and "scan_addPoint (byte_vector str) (length its') (scan_index_of pts) = Some (scan_index_of pts')"
    and "its'' = its' @ [\<lparr>role = r, content = str\<rparr>]"
    and "cur'' = cur' + int (length str)"
  shows "addContext scan_lib (Item r (Str str)) (scan_state pts its cur)
         = Inr (scan_state pts' its'' cur'', None)"
proof -
  have eq: "content_duplicate r (Str str) it \<longleftrightarrow> it = \<lparr>role = r, content = str\<rparr>" for it
    by (cases it) (auto simp: content_duplicate_def)
  from assms(1,2)
  have "addContext scan_lib (Item r (Str str)) (scan_state pts its cur)
        = Inr (addItem scan_lib (Item r (Str str)) (scan_state pts its cur))"
    by (intro addContext_new) (auto simp: eq list_ex_iff scan_state_def)
  with scan_addItem [OF assms(3,4)] assms(5,6) show ?thesis by simp
qed

lemma fifo_step1: "addContext scan_lib (Item ''user'' (Str (replicate 2048 CHR ''a''))) scan_store
   = Inr (scan_state [(0, byte_vector (replicate 2048 CHR ''a''))] [user_turn (replicate 2048 CHR ''a'')] 2048, None)"
  unfolding scan_store_state user_turn_def
  by (rule scan_addContext_new [where its' = "[]" and cur' = 0])
     (simp_all add: not_found_def scan_addPoint_new)

lemma fifo_step2: "addContext scan_lib (Item ''user'' (Str (replicate 2048 CHR ''b'')))
   (scan_state [(0, byte_vector (replicate 2048 CHR ''a''))] [user_turn (replicate 2048 CHR ''a'')] 2048)
   = Inr (scan_state [(0, byte_vector (replicate 2048 CHR ''a'')), (1, byte_vector (replicate 2048 CHR ''b''))]
      [user_turn (replicate 2048 CHR ''a''), user_turn (replicate 2048 CHR ''b'')] 4096, None)"
  unfolding user_turn_def
  by (rule scan_addContext_new [where its' = "[\<lparr>role = ''user'', content = replicate 2048 CHR ''a''\<rparr>]" and cur' = 2048])
     (simp_all add: not_found_def scan_addPoint_new)

lemma fifo_step3: "addContext scan_lib (Item ''user'' (Str (replicate 2048 CHR ''c'')))
   (scan_state [(0, byte_vector (replicate 2048 CHR ''a'')), (1, byte_vector (replicate 2048 CHR ''b''))]
      [user_turn (replicate 2048 CHR ''a''), user_turn (replicate 2048 CHR ''b'')] 4096)
   = Inr (scan_state [(0, byte_vector (replicate 2048 CHR ''a'')), (1, byte_vector (replicate 2048 CHR ''c''))]
      [user_turn (replicate 2048 CHR ''b''), user_turn (replicate 2048 CHR ''c'')] 4096, None)"
  unfolding user_turn_def
  by (rule scan_addContext_new [where its' = "[\<lparr>role = ''user'', content = replicate 2048 CHR ''b''\<rparr>]" and cur' = 2048])
     (simp_all add: not_found_def scan_addPoint_replace byte_encoder_def)

subsection \<open>Filling the reference index\<close>

lemma short_text_inj:
  assumes "i \<le> 1000" "j \<le> 1000" "short_text i = short_text j"
  shows "i = j"
proof -
  from assms(3) have "char_of (48 + i div 32) = (char_of (48 + j div 32) :: char)"
    and "char_of (64 + i mod 32) = (char_of (64 + j mod 32) :: char)"
    by (simp_all add: short_text_def)
  then have "(48 + i div 32) mod 256 = (48 + j div 32) mod 256"
    and "(64 + i mod 32) mod 256 = (64 + j mod 32) mod 256"
    by (simp_all add: char_of_eq_iff take_bit_eq_mod)
  with assms(1,2) have "i div 32 = j div 32" "i mod 32 = j mod 32" by simp_all
  then show ?thesis by (metis div_mult_mod_eq)
qed

lemma length_short_text [simp]: "length (short_text i) = 2"
  by (simp add: short_text_def)

lemma filled_step:
  assumes "n < 1000"
  shows "addContext scan_lib (Item ''user'' (Str (short_text n))) (filled_store n)
         = Inr (filled_store (Suc n), None)"
  unfolding filled_store_def
proof (rule scan_addContext_new [where its' = "map (\<lambda>i. user_turn (short_text i)) [0..<n]"
      and cur' = "2 * int n"])
  show "\<lparr>role = ''user'', content = short_text n\<rparr> \<noteq> not_found"
    by (simp add: not_found_def)
  show "\<lparr>role = ''user'', content = short_text n\<rparr> \<notin> set (map (\<lambda>i. user_turn (short_text i)) [0..<n])"
  proof
    assume "\<lparr>role = ''user'', content = short_text n\<rparr>
              \<in> set (map (\<lambda>i. user_turn (short_text i)) [0..<n])"
    then obtain i where "i < n" "short_text n = short_text i" by (auto simp: user_turn_def)
    with assms short_text_inj [of n i] show False by simp
  qed
  show "evict byte_encoder 4096 (int (length (short_text n))) (map (\<lambda>i. user_turn (short_text i)) [0..<n])
      (2 * int n) = (map (\<lambda>i. user_turn (short_text i)) [0..<n], 2 * int n, None)"
    using assms by (intro evict_room) simp
  show "scan_addPoint (byte_vector (short_text n)) (length (map (\<lambda>i. user_turn (short_text i)) [0..<n]))
      (scan_index_of (map (\<lambda>i. (i, byte_vector (short_text i))) [0..<n]))
     = Some (scan_index_of (map (\<lambda>i. (i, byte_vector (short_text i))) [0..<Suc n]))"
    using assms by (simp add: scan_addPoint_new comp_def)
qed (simp_all add: user_turn_def)

lemma run_short_calls: "n \<le> 1000 \<Longrightarrow> run scan_lib (short_calls n) scan_store = filled_store n"
proof (induction n)
  case 0
  show ?case by (simp add: run_def short_calls_def filled_store_def scan_store_state)
next
  case (Suc n)
  then have "run scan_lib (short_calls n) scan_store = filled_store n" by simp
  moreover from Suc.prems have "n < 1000" by simp
  ultimately show ?case
    by (simp add: run_def short_calls_def filled_step)
qed

lemma full_index_rejects:
  "scan_addPoint (byte_vector (short_text 1000)) 1000 (index (filled_store 1000)) = None"
  by (simp add: filled_store_def scan_state_def scan_index_of_def scan_addPoint_def comp_def)

lemma addContext_reaches_index:
  assumes enc: "encoder s (Str str) = Some toks"
    and new: "\<not> list_ex (content_duplicate r (Str str)) (getRelevantContext lib (Str str) 5 s)"
    and ev: "evict (encoder s) (maxTokens s) (int (length toks)) (items s) (currentTokens s)
             = (its, cur, None)"
  shows "addContext lib (Item r (Str str)) s =
         (case addPoint lib (vector_loop toks 0 (replicate dimension 0)) (length its) (index s) of
            None \<Rightarrow> Inr (s\<lparr>items := its, currentTokens := cur\<rparr>, Some (AddError IndexFailed))
          | Some ix \<Rightarrow> Inr (s\<lparr>index := ix, items := its @ [\<lparr>role = r, content = str\<rparr>],
                              currentTokens := cur + int (length toks)\<rparr>, None))"
  using new addItem_try_encodable [OF enc ev, of lib r]
  by (simp add: addContext_def addItem_def split: option.splits)

lemma filled_query_new:
  "\<not> list_ex (content_duplicate ''user'' (Str (short_text 1000)))
       (getRelevantContext scan_lib (Str (short_text 1000)) 5 (filled_store 1000))"
proof
  assume "list_ex (content_duplicate ''user'' (Str (short_text 1000)))
       (getRelevantContext scan_lib (Str (short_text 1000)) 5 (filled_store 1000))"
  then obtain it where it: "it \<in> set (getRelevantContext scan_lib (Str (short_text 1000)) 5 (filled_store 1000))"
    and dup: "content_duplicate ''user'' (Str (short_text 1000)) it"
    by (auto simp: list_ex_iff)
  from it getRelevantContext_sources [of scan_lib "Str (short_text 1000)" 5 "filled_store 1000"]
  have "it = not_found \<or> it \<in> set (items (filled_store 1000))" by auto
  then show False
  proof
    assume "it = not_found"
    with dup show False by (simp add: content_duplicate_def not_found_def)
  next
    assume "it \<in> set (items (filled_store 1000))"
    then obtain i where "i < 1000" "it = user_turn (short_text i)"
      by (auto simp: filled_store_def scan_state_def)
    with dup short_text_inj [of i 1000] show False
      by (simp add: content_duplicate_def user_turn_def)
  qed
qed

lemma filled_evict:
  "evict (encoder (filled_store 1000)) (maxTokens (filled_store 1000)) (int (length (map of_char (short_text 1000) :: nat list)))
     (items (filled_store 1000)) (currentTokens (filled_store 1000))
   = (items (filled_store 1000), 2000, None)"
  by (simp add: filled_store_def scan_state_def evict_room)

subsection \<open>Sessions of the reference instance\<close>

lemma upt_7: "[0..<7] = [0,1,2,3,4,5,6]" "[0..<6] = [0,1,2,3,4,5]" "[0..<5] = [0,1,2,3,4]"
  by (simp_all add: upt_rec)

lemma length_five_roles: "length five_roles = 5"
  by (simp add: five_roles_def)

lemma hello_points_Suc: "hello_points (Suc n) = hello_points n @ [(n, byte_vector ''hello'')]"
  by (simp add: hello_points_def)

lemma hello_points_add:
  "n < 1000 \<Longrightarrow>
   scan_addPoint (byte_vector ''hello'') n (scan_index_of (hello_points n))
     = Some (scan_index_of (hello_points (Suc n)))"
  unfolding hello_points_Suc
  by (rule scan_addPoint_new) (simp_all add: hello_points_def comp_def)

lemma scan_addItem_eq:
  assumes "evict byte_encoder 4096 (int (length str)) its cur = (its', cur', None)"
    and "scan_addPoint (byte_vector str) (length its') (scan_index_of pts) = Some (scan_index_of pts')"
    and "its'' = its' @ [\<lparr>role = r, content = str\<rparr>]"
    and "cur'' = cur' + int (length str)"
  shows "addItem scan_lib (Item r (Str str)) (scan_state pts its cur)
         = (scan_state pts' its'' cur'', None)"
  using scan_addItem [OF assms(1,2)] assms(3,4) by simp

lemma dup_query:
  "getRelevantContext scan_lib (Str ''hello'') 5 dup6 = tl five_roles @ [hello_turn ''user'']"
  by (simp add: getRelevantContext_def getRelevantContext_try_def dup6_def scan_state_def
      scan_lib_def textToVector_byte scan_searchKnn_def nearest_def scan_index_of_def
      hello_points_def upt_7 five_roles_def resolve_def)

lemma dup_second:
  "addContext scan_lib (Item ''system'' (Str ''hello'')) dup6 = Inr (dup7, None)"
proof -
  have "\<not> list_ex (content_duplicate ''system'' (Str ''hello''))
          (tl five_roles @ [hello_turn ''user''])"
    by (simp add: five_roles_def hello_turn_def content_duplicate_def)
  then have "addContext scan_lib (Item ''system'' (Str ''hello'')) dup6
        = Inr (addItem scan_lib (Item ''system'' (Str ''hello'')) dup6)"
    by (simp add: addContext_def dup_query)
  also have "addItem scan_lib (Item ''system'' (Str ''hello'')) dup6 = (dup7, None)"
    unfolding dup6_def dup7_def
  proof (rule scan_addItem_eq [where its' = "five_roles @ [hello_turn ''user'']" and cur' = 30])
    show "scan_addPoint (byte_vector ''hello'') (length (five_roles @ [hello_turn ''user'']))
            (scan_index_of (hello_points 6)) = Some (scan_index_of (hello_points 7))"
      using hello_points_add [of 6] by (simp add: length_five_roles)
  qed (simp_all add: hello_turn_def evict_room)
  finally show ?thesis .
qed

lemma step_addContext: "addContext lib a s = Inr (s', lg) \<Longrightarrow> step lib (AddContext a) s = s'"
  by simp

lemma run_snoc: "run lib (calls @ [c]) s = step lib c (run lib calls s)"
  by (simp add: run_def)

lemma run_Cons: "run lib (c # calls) s = run lib calls (step lib c s)"
  by (simp add: run_def)

lemma run_Nil: "run lib [] s = s"
  by (simp add: run_def)

lemma hello_step:
  assumes "hello_turn r \<notin> set its" and "length its < 800"
  shows "addContext scan_lib (Item r (Str ''hello''))
           (scan_state (hello_points (length its)) its (5 * int (length its)))
         = Inr (scan_state (hello_points (Suc (length its))) (its @ [hello_turn r])
                  (5 * int (Suc (length its))), None)"
proof (rule scan_addContext_new [where its' = its and cur' = "5 * int (length its)"])
  show "\<lparr>role = r, content = ''hello''\<rparr> \<noteq> not_found" by (simp add: not_found_def)
  show "\<lparr>role = r, content = ''hello''\<rparr> \<notin> set its" using assms(1) by (simp add: hello_turn_def)
  show "evict byte_encoder 4096 (int (length ''hello'')) its (5 * int (length its))
        = (its, 5 * int (length its), None)"
    using assms(2) by (intro evict_room) simp
  show "scan_addPoint (byte_vector ''hello'') (length its) (scan_index_of (hello_points (length its)))
        = Some (scan_index_of (hello_points (Suc (length its))))"
    using assms(2) by (intro hello_points_add) simp
qed (simp_all add: hello_turn_def)

lemma run_hello:
  "distinct rs \<Longrightarrow> length rs \<le> 800 \<Longrightarrow>
   run scan_lib (map (\<lambda>r. AddContext (Item r (Str ''hello''))) rs) scan_store
     = scan_state (hello_points (length rs)) (map hello_turn rs) (5 * int (length rs))"
proof (induction rs rule: rev_induct)
  case Nil
  show ?case by (simp add: run_def scan_store_state hello_points_def)
next
  case (snoc r rs)
  then have ih: "run scan_lib (map (\<lambda>r. AddContext (Item r (Str ''hello''))) rs) scan_store
     = scan_state (hello_points (length rs)) (map hello_turn rs) (5 * int (length rs))" by simp
  from snoc.prems have "hello_turn r \<notin> set (map hello_turn rs)" "length (map hello_turn rs) < 800"
    by (auto simp: hello_turn_def)
  from hello_step [OF this] show ?case
    by (simp add: run_snoc ih)
qed

lemma resolve_last: "resolve (its @ [t]) (length its) = t"
  by (simp add: resolve_def)

lemma count_list_drop: "t \<notin> set xs \<Longrightarrow> count_list (drop n xs) t = 0"
  by (metis count_list_0_iff in_set_dropD)

lemma drift_step1:
  "addContext scan_lib (Item ''user'' (Str (replicate 1365 CHR ''a''))) scan_store
   = Inr (scan_state [drift_point 0 CHR ''a''] [drift_turn CHR ''a''] 1365, None)"
  unfolding scan_store_state drift_turn_def drift_point_def user_turn_def
  by (rule scan_addContext_new [where its' = "[]" and cur' = 0])
    (simp_all add: not_found_def scan_addPoint_new)

lemma drift_step2:
  "addContext scan_lib (Item ''user'' (Str (replicate 1365 CHR ''b'')))
     (scan_state [drift_point 0 CHR ''a''] [drift_turn CHR ''a''] 1365)
   = Inr (scan_state [drift_point 0 CHR ''a'', drift_point 1 CHR ''b'']
            [drift_turn CHR ''a'', drift_turn CHR ''b''] 2730, None)"
  unfolding drift_turn_def drift_point_def user_turn_def
  by (rule scan_addContext_new [where its' = "[\<lparr>role = ''user'', content = replicate 1365 CHR ''a''\<rparr>]"
        and cur' = 1365])
    (simp_all add: not_found_def scan_addPoint_new)

lemma drift_step3:
  "addContext scan_lib (Item ''user'' (Str (replicate 1365 CHR ''c'')))
     (scan_state [drift_point 0 CHR ''a'', drift_point 1 CHR ''b'']
        [drift_turn CHR ''a'', drift_turn CHR ''b''] 2730)
   = Inr (scan_state [drift_point 0 CHR ''a'', drift_point 1 CHR ''b'', drift_point 2 CHR ''c'']
            [drift_turn CHR ''a'', drift_turn CHR ''b'', drift_turn CHR ''c''] 4095, None)"
  unfolding drift_turn_def drift_point_def user_turn_def
  by (rule scan_addContext_new [where its' = "[\<lparr>role = ''user'', content = replicate 1365 CHR ''a''\<rparr>,
          \<lparr>role = ''user'', content = replicate 1365 CHR ''b''\<rparr>]" and cur' = 2730])
    (simp_all add: not_found_def scan_addPoint_new numeral_2_eq_2[symmetric])

lemma drift_step4:
  "addContext scan_lib (Item ''user'' (Str (replicate 1365 CHR ''d'')))
     (scan_state [drift_point 0 CHR ''a'', drift_point 1 CHR ''b'', drift_point 2 CHR ''c'']
        [drift_turn CHR ''a'', drift_turn CHR ''b'', drift_turn CHR ''c''] 4095)
   = Inr (drift_store, None)"
  unfolding drift_turn_def drift_point_def user_turn_def drift_store_def
  by (rule scan_addContext_new [where its' = "[\<lparr>role = ''user'', content = replicate 1365 CHR ''b''\<rparr>,
          \<lparr>role = ''user'', content = replicate 1365 CHR ''c''\<rparr>]" and cur' = 2730])
    (simp_all add: not_found_def scan_addPoint_replace byte_encoder_def numeral_2_eq_2[symmetric])

lemma byte_vector_replicate:
  "n \<le> dimension \<Longrightarrow>
   byte_vector (replicate n c) = replicate n (real (of_char c) / 100) @ replicate (dimension - n) 0"
  by (simp add: byte_vector_def vector_loop_closed)

lemma dot_padded:
  "dot (replicate n a @ replicate m 0) (replicate n b @ replicate m 0) = real n * (a * b)"
  by (simp add: dot_def sum_list_replicate)

text \<open>Texts that repeat one byte give parallel vectors.\<close>

lemma distance_parallel:
  assumes "0 < n" "n \<le> dimension" "of_char c \<noteq> (0::nat)" "of_char d \<noteq> (0::nat)"
  shows "cosine_distance (byte_vector (replicate n c)) (byte_vector (replicate n d)) = 0"
  using assms by (simp add: byte_vector_replicate dot_padded cosine_distance_def)

lemma drift_search:
  "scan_searchKnn (byte_vector (replicate 1365 CHR ''a'')) 3
     (scan_index_of [drift_point 0 CHR ''a'', drift_point 1 CHR ''b'', drift_point 2 CHR ''d''])
   = Neighbors [0, 1, 2]"
  by (simp add: scan_searchKnn_def nearest_def scan_index_of_def drift_point_def
      distance_parallel dimension_def)

subsection \<open>The duplicate check sees five neighbours\<close>

lemma content_duplicate_iff:
  "content_duplicate r (Str c) e \<longleftrightarrow> e = \<lparr>role = r, content = c\<rparr>"
  by (cases e) (auto simp: content_duplicate_def)

text \<open>
  Whatever the libraries compute, as long as the index returns no more neighbours than
  it is asked for: among more than five different live items with one and the same
  content there is one that the duplicate check does not find, so that
  \<^verbatim>\<open>addContext\<close> hands it to \<^verbatim>\<open>addItem\<close> again.
\<close>

lemma dedup_misses_one:
  assumes b: "knn_bounded lib" and d: "distinct (items s)" and n: "5 < length (items s)"
    and c: "\<forall>it \<in> set (items s). content it = c"
  shows "\<exists>it \<in> set (items s).
           addContext lib (Item (role it) (Str c)) s = Inr (addItem lib (Item (role it) (Str c)) s)"
proof -
  let ?R = "getRelevantContext lib (Str c) 5 s"
  from getRelevantContext_length [OF b, of "Str c" 5 s] have "length ?R \<le> 5" by simp
  then have "card (set ?R) \<le> 5" using card_length [of ?R] by simp
  moreover from d n have "5 < card (set (items s))" by (simp add: distinct_card)
  ultimately have "\<not> set (items s) \<subseteq> set ?R"
    using card_mono [of "set ?R" "set (items s)"] by auto
  then obtain it where it: "it \<in> set (items s)" "it \<notin> set ?R" by auto
  from it(1) c have "it = \<lparr>role = role it, content = c\<rparr>" by (cases it) auto
  with it(2) have "\<not> list_ex (content_duplicate (role it) (Str c)) ?R"
    by (simp add: list_ex_iff content_duplicate_iff)
  then have "addContext lib (Item (role it) (Str c)) s
             = Inr (addItem lib (Item (role it) (Str c)) s)"
    by (simp add: addContext_def)
  with it(1) show ?thesis by blast
qed

section \<open>The claims\<close>

text \<open>
  C2 (budget invariant). Start from the module's store and make any calls of the
  exported functions. After each of them the counter is at most the budget, or the
  array holds exactly one item.
\<close>

theorem budget_invariant:
  assumes "newVectorStore lib = Inr s0"
  shows "currentTokens (run lib (take n calls) s0) \<le> maxTokens (run lib (take n calls) s0)
         \<or> length (items (run lib (take n calls) s0)) = 1"
proof -
  from assms have "store_ok s0" by (rule newVectorStore_store_ok)
  then have "store_ok (run lib (take n calls) s0)" by (rule run_store_ok)
  then show ?thesis by (simp add: store_ok_def within_budget_def)
qed

theorem budget_invariant_witness:
  "newVectorStore scan_lib = Inr scan_store \<and>
   (currentTokens (run scan_lib (take 2 [AddContext (Item ''user'' (Str ''hello'')),
        AddContext (Item ''assistant'' (Str ''hi'')), GetContext (Str ''hello'')]) scan_store)
      \<le> maxTokens (run scan_lib (take 2 [AddContext (Item ''user'' (Str ''hello'')),
        AddContext (Item ''assistant'' (Str ''hi'')), GetContext (Str ''hello'')]) scan_store)
    \<or> length (items (run scan_lib (take 2 [AddContext (Item ''user'' (Str ''hello'')),
        AddContext (Item ''assistant'' (Str ''hi'')), GetContext (Str ''hello'')]) scan_store)) = 1)"
  using budget_invariant [of scan_lib scan_store 2
      "[AddContext (Item ''user'' (Str ''hello'')), AddContext (Item ''assistant'' (Str ''hi'')),
        GetContext (Str ''hello'')]"]
  by (simp add: newVectorStore_scan)

text \<open>
  C7 (token accounting). After every call of a session that starts from the module's
  store, the encoder accepts the content of every live item and the counter equals the
  sum of the token counts it reports for them.
\<close>

theorem token_accounting:
  assumes "newVectorStore lib = Inr s0"
  shows "list_all (encodable (encoder (run lib (take n calls) s0)))
           (items (run lib (take n calls) s0))
         \<and> currentTokens (run lib (take n calls) s0)
             = sum_list (map (token_count (encoder (run lib (take n calls) s0)))
                 (items (run lib (take n calls) s0)))"
proof -
  from assms have "store_ok s0" by (rule newVectorStore_store_ok)
  then have "store_ok (run lib (take n calls) s0)" by (rule run_store_ok)
  then show ?thesis by (simp add: store_ok_def accounted_def live_tokens_def)
qed

theorem token_accounting_witness:
  "newVectorStore scan_lib = Inr scan_store \<and>
   list_all (encodable (encoder (run scan_lib (take 1 [AddContext (Item ''user'' (Str ''hello'')),
        ClearContext]) scan_store)))
     (items (run scan_lib (take 1 [AddContext (Item ''user'' (Str ''hello'')),
        ClearContext]) scan_store))
   \<and> currentTokens (run scan_lib (take 1 [AddContext (Item ''user'' (Str ''hello'')),
        ClearContext]) scan_store)
       = sum_list (map (token_count (encoder (run scan_lib (take 1
            [AddContext (Item ''user'' (Str ''hello'')), ClearContext]) scan_store)))
           (items (run scan_lib (take 1 [AddContext (Item ''user'' (Str ''hello'')),
              ClearContext]) scan_store)))"
  using token_accounting [of scan_lib scan_store 1
      "[AddContext (Item ''user'' (Str ''hello'')), ClearContext]"]
  by (simp add: newVectorStore_scan)

text \<open>
  C6 (vectorizer contract). When the tokenizer accepts the text, \<^verbatim>\<open>textToVector\<close>
  returns a vector of the fixed dimension 1536 whose component \<open>i\<close> is token \<open>i\<close>
  divided by 100 for every position below both the token count and the dimension, and
  zero from the token count on: a longer token sequence is cut at the dimension, a
  shorter one is padded with zeros. The result is a function of the tokens alone.
\<close>

theorem vectorizer_contract:
  assumes "enc q = Some toks"
  shows "\<exists>v. textToVector enc q = Inr v \<and> length v = dimension \<and> dimension = 1536
           \<and> (\<forall>i. i < min (length toks) dimension \<longrightarrow> v ! i = real (toks ! i) / 100)
           \<and> (\<forall>i. length toks \<le> i \<and> i < dimension \<longrightarrow> v ! i = 0)
           \<and> v = map (\<lambda>t. real t / 100) (take dimension toks)
                   @ replicate (dimension - length toks) 0"
  using assms
  by (simp add: textToVector_Some vector_loop_nth vector_loop_closed[symmetric])
    (simp add: dimension_def)

theorem vectorizer_contract_witness:
  "byte_encoder (Str ''hi'') = Some [104, 105] \<and>
   (\<exists>v. textToVector byte_encoder (Str ''hi'') = Inr v \<and> length v = dimension \<and> dimension = 1536
       \<and> (\<forall>i. i < min (length [104, 105 :: nat]) dimension
              \<longrightarrow> v ! i = real ([104, 105] ! i) / 100)
       \<and> (\<forall>i. length [104, 105 :: nat] \<le> i \<and> i < dimension \<longrightarrow> v ! i = 0)
       \<and> v = map (\<lambda>t. real t / 100) (take dimension [104, 105])
               @ replicate (dimension - length [104, 105 :: nat]) 0)"
proof -
  have h: "byte_encoder (Str ''hi'') = Some [104, 105]" by (simp add: byte_encoder_def)
  from vectorizer_contract [of byte_encoder "Str ''hi''" "[104, 105]"] h show ?thesis by blast
qed

text \<open>
  C8 (empty and reset store). On the store the module starts with, every query returns
  the empty list and the counter is 0. \<^verbatim>\<open>clearContext\<close> puts that same store in
  place of whatever was there, so after a session that ends with a reset every query,
  also one for content inserted before, returns the empty list and the counter is 0.
\<close>

theorem fresh_store_empty:
  assumes "newVectorStore lib = Inr s0"
  shows "getRelevantContext lib q k s0 = [] \<and> currentTokens s0 = 0
         \<and> step lib ClearContext s = s0
         \<and> getRelevantContext lib q k (run lib (calls @ [ClearContext]) s0) = []
         \<and> getContext lib q (run lib (calls @ [ClearContext]) s0) = []
         \<and> currentTokens (run lib (calls @ [ClearContext]) s0) = 0"
proof -
  from assms have f: "items s0 = []" "currentTokens s0 = 0" by (simp_all add: newVectorStore_fresh)
  from assms have r: "step lib ClearContext t = s0" for t by (simp add: clearContext_def)
  then have "run lib (calls @ [ClearContext]) s0 = s0" by (simp add: run_def)
  with f r show ?thesis by (simp add: getRelevantContext_empty getContext_def)
qed

theorem fresh_store_empty_witness:
  "newVectorStore scan_lib = Inr scan_store
   \<and> getRelevantContext scan_lib (Str ''hello'') 5 scan_store = [] \<and> currentTokens scan_store = 0
   \<and> step scan_lib ClearContext one_item_store = scan_store
   \<and> getRelevantContext scan_lib (Str ''hello'') 5
       (run scan_lib ([AddContext (Item ''user'' (Str ''hello''))] @ [ClearContext]) scan_store) = []
   \<and> getContext scan_lib (Str ''hello'')
       (run scan_lib ([AddContext (Item ''user'' (Str ''hello''))] @ [ClearContext]) scan_store) = []
   \<and> currentTokens
       (run scan_lib ([AddContext (Item ''user'' (Str ''hello''))] @ [ClearContext]) scan_store) = 0"
  using fresh_store_empty [of scan_lib scan_store "Str ''hello''" 5 one_item_store
      "[AddContext (Item ''user'' (Str ''hello''))]"]
  by (simp add: newVectorStore_scan)

text \<open>
  What \<^verbatim>\<open>addContext\<close> does with an invalid argument, whatever the libraries and the
  store. Handed \<^verbatim>\<open>null\<close> or \<^verbatim>\<open>undefined\<close>, it throws a TypeError when it reads
  \<^verbatim>\<open>item.content\<close>, before it touches the store. Handed an object whose content is
  not a string, it returns normally: no stored content equals a non-string, so
  \<^verbatim>\<open>addItem\<close> is reached, and its guard logs the item and returns. Either way the
  array, the index and the counter are what they were.
\<close>

theorem invalid_input_guard:
  "addContext lib Nullish s = Inl TypeError
   \<and> step lib (AddContext Nullish) s = s
   \<and> addContext lib (Item r NotString) s = Inr (s, Some InvalidItem)
   \<and> step lib (AddContext (Item r NotString)) s = s"
proof -
  have "\<not> list_ex (content_duplicate r NotString) xs" for xs
    by (induction xs) (simp_all add: content_duplicate_def)
  then have "addContext lib (Item r NotString) s = Inr (s, Some InvalidItem)"
    by (simp add: addContext_def addItem_def addItem_try_invalid)
  then show ?thesis by (simp add: addContext_def)
qed

text \<open>
  C9 (invalid-input guard) does not hold for the code at \<^verbatim>\<open>null\<close> and
  \<^verbatim>\<open>undefined\<close>; this evaluates the code there, on the fresh reference store. The
  guard of \<^verbatim>\<open>addItem\<close> does what the claim says: it logs the item and returns, and
  the store is as it was. But \<^verbatim>\<open>addContext\<close> reads \<^verbatim>\<open>item.content\<close> before it calls
  \<^verbatim>\<open>addItem\<close>, so the call does not return: it throws a TypeError.
\<close>

theorem null_argument_throws:
  "addContext scan_lib Nullish scan_store = Inl TypeError
   \<and> addItem scan_lib Nullish scan_store = (scan_store, Some InvalidItem)"
  by (simp add: addContext_def addItem_def addItem_try_invalid)

text \<open>
  C10 (query totality and length bound). \<^verbatim>\<open>getRelevantContext\<close> is a total function
  into lists: whenever its \<^verbatim>\<open>try\<close> block throws, the result is the empty list. The
  number of neighbours asked of the index is \<open>k\<close> clamped to the live count, so a query
  for \<open>k\<close> is a query for the clamped \<open>k\<close>; and with an index that returns at most as
  many neighbours as it is asked for, the result has at most \<open>min k (length items)\<close>
  items. Here \<open>k\<close> is a count, a natural number.
\<close>

theorem query_total_bounded:
  "(getRelevantContext_try lib q k s = Inl e \<longrightarrow> getRelevantContext lib q k s = [])
   \<and> getRelevantContext lib q k s = getRelevantContext lib q (min k (length (items s))) s
   \<and> (knn_bounded lib \<longrightarrow> length (getRelevantContext lib q k s) \<le> min k (length (items s)))"
  using getRelevantContext_clamp [of lib q k s] getRelevantContext_length [of lib q k s]
  by (simp add: getRelevantContext_def)

theorem query_total_bounded_witness:
  "getRelevantContext_try scan_lib NotString 5 one_item_store = Inl VectorizeFailed
   \<and> getRelevantContext scan_lib NotString 5 one_item_store = []
   \<and> getRelevantContext scan_lib (Str ''hello'') 5 one_item_store
       = getRelevantContext scan_lib (Str ''hello'') (min 5 (length (items one_item_store)))
           one_item_store
   \<and> knn_bounded scan_lib
   \<and> length (getRelevantContext scan_lib (Str ''hello'') 5 one_item_store)
       \<le> min 5 (length (items one_item_store))"
proof -
  have h: "getRelevantContext_try scan_lib NotString 5 one_item_store = Inl VectorizeFailed"
    by (simp add: getRelevantContext_try_def one_item_store_def scan_store_def textToVector_def
        byte_encoder_def)
  from query_total_bounded [of scan_lib NotString 5 one_item_store VectorizeFailed]
    query_total_bounded [of scan_lib "Str ''hello''" 5 one_item_store VectorizeFailed]
    h scan_knn_bounded
  show ?thesis by blast
qed

text \<open>
  C4 (FIFO eviction). Whatever a call of \<^verbatim>\<open>addContext\<close> does, the array afterwards
  is the old array with some number of items dropped from its front, with or without
  one item appended at its end: arrival order is kept and only the oldest items go,
  whatever the index says about relevance. In particular, start from the module's store
  and insert three different turns, none of them the not-found placeholder, each with
  half the budget in tokens, each insert completing without a logged failure: after the
  third insert the live items are the second and the third turn, and the first is gone.
\<close>

theorem fifo_eviction:
  "(addContext lib a s = Inr (s', lg) \<longrightarrow>
      (\<exists>n. items s' = drop n (items s) \<or> (\<exists>t. items s' = drop n (items s) @ [t])))
   \<and> (newVectorStore lib = Inr s0
        \<and> encoder s0 (Str c1) = Some t1 \<and> 2 * int (length t1) = maxTokens s0
        \<and> encoder s0 (Str c2) = Some t2 \<and> 2 * int (length t2) = maxTokens s0
        \<and> encoder s0 (Str c3) = Some t3 \<and> 2 * int (length t3) = maxTokens s0
        \<and> distinct [\<lparr>role = r1, content = c1\<rparr>, \<lparr>role = r2, content = c2\<rparr>,
                      \<lparr>role = r3, content = c3\<rparr>, not_found]
        \<and> addContext lib (Item r1 (Str c1)) s0 = Inr (s1, None)
        \<and> addContext lib (Item r2 (Str c2)) s1 = Inr (s2, None)
        \<and> addContext lib (Item r3 (Str c3)) s2 = Inr (s3, None)
      \<longrightarrow> items s1 = [\<lparr>role = r1, content = c1\<rparr>]
        \<and> items s2 = [\<lparr>role = r1, content = c1\<rparr>, \<lparr>role = r2, content = c2\<rparr>]
        \<and> items s3 = [\<lparr>role = r2, content = c2\<rparr>, \<lparr>role = r3, content = c3\<rparr>]
        \<and> currentTokens s3 = maxTokens s0)"
proof (rule conjI; rule impI)
  assume "addContext lib a s = Inr (s', lg)"
  then show "\<exists>n. items s' = drop n (items s) \<or> (\<exists>t. items s' = drop n (items s) @ [t])"
    by (rule addContext_suffix)
next
  assume h: "newVectorStore lib = Inr s0
        \<and> encoder s0 (Str c1) = Some t1 \<and> 2 * int (length t1) = maxTokens s0
        \<and> encoder s0 (Str c2) = Some t2 \<and> 2 * int (length t2) = maxTokens s0
        \<and> encoder s0 (Str c3) = Some t3 \<and> 2 * int (length t3) = maxTokens s0
        \<and> distinct [\<lparr>role = r1, content = c1\<rparr>, \<lparr>role = r2, content = c2\<rparr>,
                      \<lparr>role = r3, content = c3\<rparr>, not_found]
        \<and> addContext lib (Item r1 (Str c1)) s0 = Inr (s1, None)
        \<and> addContext lib (Item r2 (Str c2)) s1 = Inr (s2, None)
        \<and> addContext lib (Item r3 (Str c3)) s2 = Inr (s3, None)"
  let ?T1 = "\<lparr>role = r1, content = c1\<rparr>" and ?T2 = "\<lparr>role = r2, content = c2\<rparr>"
    and ?T3 = "\<lparr>role = r3, content = c3\<rparr>"
  from h have "newVectorStore lib = Inr s0" by simp
  from newVectorStore_fresh [OF this]
  have s0: "items s0 = []" "currentTokens s0 = 0" "maxTokens s0 = 4096" by simp_all
  from h s0 have len: "int (length t1) = 2048" "int (length t2) = 2048" "int (length t3) = 2048"
    by simp_all
  from h have d: "?T1 \<noteq> not_found" "?T2 \<noteq> not_found" "?T3 \<noteq> not_found"
    "?T2 \<noteq> ?T1" "?T3 \<noteq> ?T1" "?T3 \<noteq> ?T2" by auto
  from h have e1: "encoder s0 (Str c1) = Some t1" and a1: "addContext lib (Item r1 (Str c1)) s0 = Inr (s1, None)"
    by simp_all
  from addContext_committed [OF e1 d(1) _ a1] s0 len obtain ix1 where
    s1: "s1 = s0\<lparr>index := ix1, items := [?T1], currentTokens := 2048\<rparr>"
    by auto
  from h s1 have e2: "encoder s1 (Str c2) = Some t2" and a2: "addContext lib (Item r2 (Str c2)) s1 = Inr (s2, None)"
    by simp_all
  from d s1 have n2: "?T2 \<notin> set (items s1)" by simp
  from addContext_committed [OF e2 d(2) n2 a2] s0 len obtain ix2 where
    s2: "s2 = s1\<lparr>index := ix2, items := [?T1, ?T2], currentTokens := 4096\<rparr>"
    by (auto simp: s1)
  from h s1 s2 have e3: "encoder s2 (Str c3) = Some t3" and a3: "addContext lib (Item r3 (Str c3)) s2 = Inr (s3, None)"
    by simp_all
  from d s2 have n3: "?T3 \<notin> set (items s2)" by simp
  from e1 have e1': "encoder s2 (Str c1) = Some t1" by (simp add: s1 s2)
  from addContext_committed [OF e3 d(3) n3 a3] s0 len e1' obtain ix3 where
    s3: "s3 = s2\<lparr>index := ix3, items := [?T2, ?T3], currentTokens := 4096\<rparr>"
    by (auto simp: s1 s2)
  from s0 s1 s2 s3 show "items s1 = [?T1] \<and> items s2 = [?T1, ?T2] \<and> items s3 = [?T2, ?T3]
        \<and> currentTokens s3 = maxTokens s0" by simp
qed


theorem fifo_eviction_witness:
  "addContext scan_lib (Item ''user'' (Str (replicate 2048 CHR ''c''))) fifo2 = Inr (fifo3, None)
   \<and> (\<exists>n. items fifo3 = drop n (items fifo2) \<or> (\<exists>t. items fifo3 = drop n (items fifo2) @ [t]))
   \<and> newVectorStore scan_lib = Inr scan_store
   \<and> encoder scan_store (Str (replicate 2048 CHR ''a'')) = Some (replicate 2048 97)
   \<and> 2 * int (length (replicate 2048 (97::nat))) = maxTokens scan_store
   \<and> encoder scan_store (Str (replicate 2048 CHR ''b'')) = Some (replicate 2048 98)
   \<and> 2 * int (length (replicate 2048 (98::nat))) = maxTokens scan_store
   \<and> encoder scan_store (Str (replicate 2048 CHR ''c'')) = Some (replicate 2048 99)
   \<and> 2 * int (length (replicate 2048 (99::nat))) = maxTokens scan_store
   \<and> distinct [user_turn (replicate 2048 CHR ''a''), user_turn (replicate 2048 CHR ''b''),
                 user_turn (replicate 2048 CHR ''c''), not_found]
   \<and> addContext scan_lib (Item ''user'' (Str (replicate 2048 CHR ''a''))) scan_store = Inr (fifo1, None)
   \<and> addContext scan_lib (Item ''user'' (Str (replicate 2048 CHR ''b''))) fifo1 = Inr (fifo2, None)
   \<and> items fifo1 = [user_turn (replicate 2048 CHR ''a'')]
   \<and> items fifo2 = [user_turn (replicate 2048 CHR ''a''), user_turn (replicate 2048 CHR ''b'')]
   \<and> items fifo3 = [user_turn (replicate 2048 CHR ''b''), user_turn (replicate 2048 CHR ''c'')]
   \<and> currentTokens fifo3 = maxTokens scan_store"
proof -
  have enc: "encoder scan_store (Str (replicate 2048 CHR ''a'')) = Some (replicate 2048 97)"
    "encoder scan_store (Str (replicate 2048 CHR ''b'')) = Some (replicate 2048 98)"
    "encoder scan_store (Str (replicate 2048 CHR ''c'')) = Some (replicate 2048 99)"
    by (simp_all add: scan_store_def byte_encoder_def)
  have len: "2 * int (length (replicate 2048 (97::nat))) = maxTokens scan_store"
    "2 * int (length (replicate 2048 (98::nat))) = maxTokens scan_store"
    "2 * int (length (replicate 2048 (99::nat))) = maxTokens scan_store"
    by (simp_all add: scan_store_def)
  have dist: "distinct [user_turn (replicate 2048 CHR ''a''), user_turn (replicate 2048 CHR ''b''),
                 user_turn (replicate 2048 CHR ''c''), not_found]"
    by (simp add: user_turn_def not_found_def)
  have a1: "addContext scan_lib (Item ''user'' (Str (replicate 2048 CHR ''a''))) scan_store = Inr (fifo1, None)"
    and a2: "addContext scan_lib (Item ''user'' (Str (replicate 2048 CHR ''b''))) fifo1 = Inr (fifo2, None)"
    and a3: "addContext scan_lib (Item ''user'' (Str (replicate 2048 CHR ''c''))) fifo2 = Inr (fifo3, None)"
    unfolding fifo1_def fifo2_def fifo3_def by (rule fifo_step1 fifo_step2 fifo_step3)+
  from fifo_eviction [where lib = scan_lib and a = "Item ''user'' (Str (replicate 2048 CHR ''c''))"
      and s = fifo2 and s' = fifo3 and lg = None and ?s0.0 = scan_store
      and ?c1.0 = "replicate 2048 CHR ''a''" and ?t1.0 = "replicate 2048 97" and ?r1.0 = "''user''"
      and ?c2.0 = "replicate 2048 CHR ''b''" and ?t2.0 = "replicate 2048 98" and ?r2.0 = "''user''"
      and ?c3.0 = "replicate 2048 CHR ''c''" and ?t3.0 = "replicate 2048 99" and ?r3.0 = "''user''"
      and ?s1.0 = fifo1 and ?s2.0 = fifo2 and ?s3.0 = fifo3]
    enc len dist a1 a2 a3 newVectorStore_scan
  show ?thesis unfolding user_turn_def by blast
qed

text \<open>
  C3 as the code has it (the claim as stated fails, as the counterexample after the
  witness shows). Take a call of \<^verbatim>\<open>addContext\<close> that reaches the index insert: the
  tokenizer accepts the content, no duplicate was found, the eviction loop has run. If
  \<^verbatim>\<open>index.addPoint\<close> throws, the \<^verbatim>\<open>catch\<close> of \<^verbatim>\<open>addItem\<close> hands the exception
  to \<^verbatim>\<open>console.error\<close> and \<^verbatim>\<open>addContext\<close> returns normally: the turn is not appended,
  the counter does not grow and the index is untouched. If it succeeds, the
  point and the turn are committed together. Either way the array the insert works on
  is the old one with its oldest items evicted, and those evictions stay.
\<close>

theorem index_failure_logged:
  assumes "encoder s (Str str) = Some toks"
    and "\<not> list_ex (content_duplicate r (Str str)) (getRelevantContext lib (Str str) 5 s)"
    and "evict (encoder s) (maxTokens s) (int (length toks)) (items s) (currentTokens s)
         = (its, cur, None)"
  shows "(addPoint lib (vector_loop toks 0 (replicate dimension 0)) (length its) (index s) = None
            \<longrightarrow> addContext lib (Item r (Str str)) s
                 = Inr (s\<lparr>items := its, currentTokens := cur\<rparr>, Some (AddError IndexFailed)))
         \<and> (addPoint lib (vector_loop toks 0 (replicate dimension 0)) (length its) (index s) = Some ix
            \<longrightarrow> addContext lib (Item r (Str str)) s
                 = Inr (s\<lparr>index := ix, items := its @ [\<lparr>role = r, content = str\<rparr>],
                          currentTokens := cur + int (length toks)\<rparr>, None))
         \<and> (\<exists>n. its = drop n (items s))"
proof -
  from evict_suffix [of "encoder s" "maxTokens s" "int (length toks)" "items s" "currentTokens s"]
    assms(3)
  have "\<exists>n. its = drop n (items s)" by simp
  with addContext_reaches_index [OF assms] show ?thesis by simp
qed


theorem index_failure_logged_witness:
  "encoder (filled_store 1000) (Str (short_text 1000)) = Some (map of_char (short_text 1000))
   \<and> \<not> list_ex (content_duplicate ''user'' (Str (short_text 1000)))
        (getRelevantContext scan_lib (Str (short_text 1000)) 5 (filled_store 1000))
   \<and> evict (encoder (filled_store 1000)) (maxTokens (filled_store 1000))
        (int (length (map of_char (short_text 1000) :: nat list)))
        (items (filled_store 1000)) (currentTokens (filled_store 1000))
      = (items (filled_store 1000), 2000, None)
   \<and> addPoint scan_lib (vector_loop (map of_char (short_text 1000)) 0 (replicate dimension 0))
        (length (items (filled_store 1000))) (index (filled_store 1000)) = None
   \<and> addContext scan_lib (Item ''user'' (Str (short_text 1000))) (filled_store 1000)
      = Inr (filled_store 1000\<lparr>items := items (filled_store 1000), currentTokens := 2000\<rparr>,
             Some (AddError IndexFailed))
   \<and> encoder scan_store (Str ''hello'') = Some [104, 101, 108, 108, 111]
   \<and> \<not> list_ex (content_duplicate ''user'' (Str ''hello''))
        (getRelevantContext scan_lib (Str ''hello'') 5 scan_store)
   \<and> evict (encoder scan_store) (maxTokens scan_store) (int (length [104, 101, 108, 108, 111 :: nat]))
        (items scan_store) (currentTokens scan_store) = ([], 0, None)
   \<and> addPoint scan_lib (vector_loop [104, 101, 108, 108, 111] 0 (replicate dimension 0))
        (length ([] :: ContextItem list)) (index scan_store)
      = Some (scan_index_of [(0, byte_vector ''hello'')])
   \<and> addContext scan_lib (Item ''user'' (Str ''hello'')) scan_store
      = Inr (scan_store\<lparr>index := scan_index_of [(0, byte_vector ''hello'')],
               items := [] @ [\<lparr>role = ''user'', content = ''hello''\<rparr>],
               currentTokens := 0 + int (length [104, 101, 108, 108, 111 :: nat])\<rparr>, None)"
proof -
  have enc: "encoder (filled_store 1000) (Str (short_text 1000)) = Some (map of_char (short_text 1000))"
    by (simp add: filled_store_def scan_state_def byte_encoder_def)
  have full: "addPoint scan_lib (vector_loop (map of_char (short_text 1000)) 0 (replicate dimension 0))
      (length (items (filled_store 1000))) (index (filled_store 1000)) = None"
    using full_index_rejects by (simp add: scan_lib_def byte_vector_def filled_store_def scan_state_def)
  have enc': "encoder scan_store (Str ''hello'') = Some [104, 101, 108, 108, 111]"
    by (simp add: scan_store_def byte_encoder_def)
  have new': "\<not> list_ex (content_duplicate ''user'' (Str ''hello''))
        (getRelevantContext scan_lib (Str ''hello'') 5 scan_store)"
    by (simp add: getRelevantContext_empty scan_store_def)
  have ev': "evict (encoder scan_store) (maxTokens scan_store) (int (length [104, 101, 108, 108, 111 :: nat]))
        (items scan_store) (currentTokens scan_store) = ([], 0, None)"
    by (simp add: scan_store_def)
  have add': "addPoint scan_lib (vector_loop [104, 101, 108, 108, 111] 0 (replicate dimension 0))
        (length ([] :: ContextItem list)) (index scan_store)
      = Some (scan_index_of [(0, byte_vector ''hello'')])"
    by (simp add: scan_lib_def scan_store_def scan_addPoint_def scan_index_of_def byte_vector_def)
  from index_failure_logged [OF enc filled_query_new filled_evict]
    index_failure_logged [OF enc' new' ev', of "scan_index_of [(0, byte_vector ''hello'')]"]
    enc filled_query_new filled_evict full enc' new' ev' add'
  show ?thesis by blast
qed


text \<open>
  C3 as stated asks that the failure of the index insert is reported to the caller.
  After 1000 inserts of different texts into the reference store the index is full: it
  rejects the point of the next insert, and \<^verbatim>\<open>addContext\<close> returns normally with the
  store as it was. The exception went to \<^verbatim>\<open>console.error\<close> only.
\<close>

theorem index_failure_not_reported:
  "scan_addPoint (byte_vector (short_text 1000)) 1000
     (index (run scan_lib (short_calls 1000) scan_store)) = None
   \<and> addContext scan_lib (Item ''user'' (Str (short_text 1000)))
       (run scan_lib (short_calls 1000) scan_store)
     = Inr (run scan_lib (short_calls 1000) scan_store, Some (AddError IndexFailed))"
proof -
  have run: "run scan_lib (short_calls 1000) scan_store = filled_store 1000"
    by (simp add: run_short_calls)
  have enc: "encoder (filled_store 1000) (Str (short_text 1000)) = Some (map of_char (short_text 1000))"
    by (simp add: filled_store_def scan_state_def byte_encoder_def)
  have same: "filled_store 1000\<lparr>items := items (filled_store 1000), currentTokens := 2000\<rparr>
              = filled_store 1000"
    by (simp add: filled_store_def scan_state_def)
  have full: "addPoint scan_lib (vector_loop (map of_char (short_text 1000)) 0 (replicate dimension 0))
      (length (items (filled_store 1000))) (index (filled_store 1000)) = None"
    using full_index_rejects by (simp add: scan_lib_def byte_vector_def filled_store_def scan_state_def)
  from addContext_reaches_index [OF enc filled_query_new filled_evict] full same
  have "addContext scan_lib (Item ''user'' (Str (short_text 1000))) (filled_store 1000)
        = Inr (filled_store 1000, Some (AddError IndexFailed))" by simp
  with full_index_rejects show ?thesis by (simp add: run)
qed

text \<open>
  What the duplicate check does give. \<^verbatim>\<open>addContext\<close> looks for a duplicate
  among the items that the relevance query for the content returns, that is among at
  most five neighbours. Insert a turn that is not live yet and is not the not-found
  placeholder, the insert completing without a logged failure. The turn then sits at the
  end of the array, under the label \<open>length items - 1\<close>. If the index returns that
  label for the second query, the second call changes nothing: the array, the index and
  the counter stay as they are, and the turn is live exactly once.
\<close>

theorem dedup_when_found:
  assumes enc: "encoder s (Str str) = Some toks"
    and nf: "\<lparr>role = r, content = str\<rparr> \<noteq> not_found"
    and new: "\<lparr>role = r, content = str\<rparr> \<notin> set (items s)"
    and first: "addContext lib (Item r (Str str)) s = Inr (s1, None)"
    and knn: "searchKnn lib (vector_loop toks 0 (replicate dimension 0))
                (min 5 (length (items s1))) (index s1) = Neighbors ns"
    and hit: "length (items s1) - 1 \<in> set ns"
  shows "addContext lib (Item r (Str str)) s1 = Inr (s1, None)
         \<and> (\<exists>n. items s1 = drop n (items s) @ [\<lparr>role = r, content = str\<rparr>])
         \<and> count_list (items s1) \<lparr>role = r, content = str\<rparr> = 1"
proof -
  let ?t = "\<lparr>role = r, content = str\<rparr>"
  from addContext_committed [OF enc nf new first] obtain its cur ix where
    ev: "evict (encoder s) (maxTokens s) (int (length toks)) (items s) (currentTokens s) = (its, cur, None)"
    and s1: "s1 = s\<lparr>index := ix, items := its @ [?t], currentTokens := cur + int (length toks)\<rparr>"
    by blast
  from evict_suffix [of "encoder s" "maxTokens s" "int (length toks)" "items s" "currentTokens s"] ev
  obtain n where its: "its = drop n (items s)" by auto
  from s1 have it1: "items s1 = its @ [?t]" and e1: "encoder s1 = encoder s" by simp_all
  from hit it1 have "length its \<in> set ns" by simp
  then have "?t \<in> set (map (resolve (items s1)) ns)"
    using resolve_last [of its ?t] by (force simp: it1)
  moreover have "getRelevantContext lib (Str str) 5 s1 = map (resolve (items s1)) ns"
    using knn enc by (simp add: getRelevantContext_def getRelevantContext_try_def e1 it1
        textToVector_Some)
  moreover have "content_duplicate r (Str str) ?t" by (simp add: content_duplicate_def)
  ultimately have "list_ex (content_duplicate r (Str str)) (getRelevantContext lib (Str str) 5 s1)"
    unfolding list_ex_iff by metis
  then have "addContext lib (Item r (Str str)) s1 = Inr (s1, None)"
    by (simp add: addContext_def)
  moreover from new have "count_list (items s1) ?t = 1"
    by (simp add: it1 its count_list_drop)
  ultimately show ?thesis using it1 its by blast
qed


theorem dedup_when_found_witness:
  "encoder scan_store (Str ''hello'') = Some [104, 101, 108, 108, 111]
   \<and> \<lparr>role = ''user'', content = ''hello''\<rparr> \<noteq> not_found
   \<and> \<lparr>role = ''user'', content = ''hello''\<rparr> \<notin> set (items scan_store)
   \<and> addContext scan_lib (Item ''user'' (Str ''hello'')) scan_store = Inr (one_item_store, None)
   \<and> searchKnn scan_lib (vector_loop [104, 101, 108, 108, 111] 0 (replicate dimension 0))
        (min 5 (length (items one_item_store))) (index one_item_store) = Neighbors [0]
   \<and> length (items one_item_store) - 1 \<in> set [0 :: nat]
   \<and> addContext scan_lib (Item ''user'' (Str ''hello'')) one_item_store = Inr (one_item_store, None)
   \<and> (\<exists>n. items one_item_store = drop n (items scan_store) @ [\<lparr>role = ''user'', content = ''hello''\<rparr>])
   \<and> count_list (items one_item_store) \<lparr>role = ''user'', content = ''hello''\<rparr> = 1"
proof -
  have enc: "encoder scan_store (Str ''hello'') = Some [104, 101, 108, 108, 111]"
    by (simp add: scan_store_def byte_encoder_def)
  have nf: "\<lparr>role = ''user'', content = ''hello''\<rparr> \<noteq> not_found" by (simp add: not_found_def)
  have new: "\<lparr>role = ''user'', content = ''hello''\<rparr> \<notin> set (items scan_store)"
    by (simp add: scan_store_def)
  have first: "addContext scan_lib (Item ''user'' (Str ''hello'')) scan_store = Inr (one_item_store, None)"
    by (simp add: addContext_def getRelevantContext_empty scan_store_def one_item_store_def
        addItem_def addItem_try_def textToVector_byte byte_encoder_def scan_lib_def scan_addPoint_def)
  have knn: "searchKnn scan_lib (vector_loop [104, 101, 108, 108, 111] 0 (replicate dimension 0))
        (min 5 (length (items one_item_store))) (index one_item_store) = Neighbors [0]"
    by (simp add: scan_lib_def scan_searchKnn_def nearest_def one_item_store_def scan_store_def)
  have hit: "length (items one_item_store) - 1 \<in> set [0 :: nat]"
    by (simp add: one_item_store_def scan_store_def)
  from dedup_when_found [OF enc nf new first knn hit] enc nf new first knn hit
  show ?thesis by blast
qed


text \<open>
  C5 (dedup idempotence) does not hold for the code. The comment on \<^verbatim>\<open>addContext\<close>
  says that an item whose content is already there is skipped, but the check sees no
  more than the five neighbours of one relevance query. Take any tokenizer and any
  index that returns no more neighbours than it is asked for, and a store whose live
  items are more than five turns with one content under different roles, with room in
  the budget for one more. Then one of these live turns passes the duplicate check when
  it is handed to \<^verbatim>\<open>addContext\<close> again: the call goes on to the index insert, and
  when the index takes the point the turn is appended a second time and the counter
  grows again. Which of the turns it is depends on the index alone.
\<close>

theorem duplicate_passes_check:
  assumes "knn_bounded lib"
    and "items s = map (\<lambda>r. \<lparr>role = r, content = c\<rparr>) rs"
    and "distinct rs" and "5 < length rs"
    and "encoder s (Str c) = Some toks"
    and "currentTokens s + int (length toks) \<le> maxTokens s"
  shows "\<exists>r \<in> set rs.
           addContext lib (Item r (Str c)) s =
             Inr (case addPoint lib (vector_loop toks 0 (replicate dimension 0)) (length rs)
                         (index s) of
                    None \<Rightarrow> (s, Some (AddError IndexFailed))
                  | Some ix \<Rightarrow>
                      (s\<lparr>index := ix, items := items s @ [\<lparr>role = r, content = c\<rparr>],
                         currentTokens := currentTokens s + int (length toks)\<rparr>, None))"
proof -
  have inj: "inj (\<lambda>r. \<lparr>role = r, content = c\<rparr>)" by (rule injI) simp
  from assms(2,3) have d: "distinct (items s)" by (simp add: distinct_map inj_on_def)
  from assms(2,4) have n: "5 < length (items s)" by simp
  from assms(2) have c: "\<forall>it \<in> set (items s). content it = c" by auto
  from dedup_misses_one [OF assms(1) d n c] obtain it where it: "it \<in> set (items s)"
    and pass: "addContext lib (Item (role it) (Str c)) s
               = Inr (addItem lib (Item (role it) (Str c)) s)" by blast
  from it assms(2) obtain r where r: "r \<in> set rs" "it = \<lparr>role = r, content = c\<rparr>" by auto
  from assms(6)
  have ev: "evict (encoder s) (maxTokens s) (int (length toks)) (items s) (currentTokens s)
            = (items s, currentTokens s, None)" by (rule evict_room)
  have same: "s\<lparr>items := items s, currentTokens := currentTokens s\<rparr> = s" by simp
  from assms(2) have len: "length (items s) = length rs" by simp
  from addItem_try_encodable [OF assms(5) ev, of lib r]
  have "addItem lib (Item r (Str c)) s =
          (case addPoint lib (vector_loop toks 0 (replicate dimension 0)) (length rs)
                  (index s) of
             None \<Rightarrow> (s, Some (AddError IndexFailed))
           | Some ix \<Rightarrow>
               (s\<lparr>index := ix, items := items s @ [\<lparr>role = r, content = c\<rparr>],
                  currentTokens := currentTokens s + int (length toks)\<rparr>, None))"
    by (simp add: addItem_def len same split: option.splits)
  with pass r show ?thesis by auto
qed

text \<open>
  In the reference store: after six inserts of "hello" under six roles the query returns
  the five items added last, the system's "hello" is not among them, and it is inserted
  a second time.
\<close>

theorem duplicate_passes_check_witness:
  "knn_bounded scan_lib
   \<and> run scan_lib (map (\<lambda>r. AddContext (Item r (Str ''hello'')))
        [''system'', ''assistant'', ''tool'', ''function'', ''developer'', ''user'']) scan_store = dup6
   \<and> items dup6 = map (\<lambda>r. \<lparr>role = r, content = ''hello''\<rparr>)
        [''system'', ''assistant'', ''tool'', ''function'', ''developer'', ''user'']
   \<and> distinct [''system'', ''assistant'', ''tool'', ''function'', ''developer'', ''user'']
   \<and> 5 < length [''system'', ''assistant'', ''tool'', ''function'', ''developer'', ''user'']
   \<and> encoder dup6 (Str ''hello'') = Some [104, 101, 108, 108, 111]
   \<and> currentTokens dup6 + int (length [104, 101, 108, 108, 111 :: nat]) \<le> maxTokens dup6
   \<and> (\<exists>r \<in> set [''system'', ''assistant'', ''tool'', ''function'', ''developer'', ''user''].
         addContext scan_lib (Item r (Str ''hello'')) dup6 =
           Inr (case addPoint scan_lib (vector_loop [104, 101, 108, 108, 111] 0
                         (replicate dimension 0))
                       (length [''system'', ''assistant'', ''tool'', ''function'',
                                ''developer'', ''user''])
                       (index dup6) of
                  None \<Rightarrow> (dup6, Some (AddError IndexFailed))
                | Some ix \<Rightarrow>
                    (dup6\<lparr>index := ix, items := items dup6 @ [\<lparr>role = r, content = ''hello''\<rparr>],
                       currentTokens := currentTokens dup6
                         + int (length [104, 101, 108, 108, 111 :: nat])\<rparr>, None)))
   \<and> addContext scan_lib (Item ''system'' (Str ''hello'')) dup6 = Inr (dup7, None)
   \<and> items dup7 = items dup6 @ [hello_turn ''system'']
   \<and> count_list (items dup7) (hello_turn ''system'') = 2
   \<and> currentTokens dup6 = 30 \<and> currentTokens dup7 = 35"
proof -
  have run: "run scan_lib (map (\<lambda>r. AddContext (Item r (Str ''hello'')))
        [''system'', ''assistant'', ''tool'', ''function'', ''developer'', ''user'']) scan_store = dup6"
  proof -
    have six: "Suc (Suc (Suc (Suc (Suc (Suc 0))))) = 6" by simp
    show ?thesis by (subst run_hello) (simp_all add: dup6_def five_roles_def six)
  qed
  have its: "items dup6 = map (\<lambda>r. \<lparr>role = r, content = ''hello''\<rparr>)
        [''system'', ''assistant'', ''tool'', ''function'', ''developer'', ''user'']"
    by (simp add: dup6_def scan_state_def five_roles_def hello_turn_def)
  have dist: "distinct [''system'', ''assistant'', ''tool'', ''function'', ''developer'', ''user'']"
    by simp
  have len: "5 < length [''system'', ''assistant'', ''tool'', ''function'', ''developer'', ''user'']"
    by simp
  have enc: "encoder dup6 (Str ''hello'') = Some [104, 101, 108, 108, 111]"
    by (simp add: dup6_def scan_state_def byte_encoder_def)
  have room: "currentTokens dup6 + int (length [104, 101, 108, 108, 111 :: nat]) \<le> maxTokens dup6"
    by (simp add: dup6_def scan_state_def)
  have vals: "items dup7 = items dup6 @ [hello_turn ''system'']"
    "count_list (items dup7) (hello_turn ''system'') = 2"
    "currentTokens dup6 = 30" "currentTokens dup7 = 35"
    by (simp_all add: dup6_def dup7_def scan_state_def five_roles_def hello_turn_def)
  from duplicate_passes_check [OF scan_knn_bounded its dist len enc room]
    scan_knn_bounded run its dist len enc room dup_second vals
  show ?thesis by blast
qed

text \<open>
  C1 (id stability) does not hold for the code; this evaluates the code at a session
  that shows it. \<^verbatim>\<open>addItem\<close> labels a point with \<^verbatim>\<open>items.length\<close> and
  \<^verbatim>\<open>getRelevantContext\<close> reads \<^verbatim>\<open>items[id]\<close>, while \<^verbatim>\<open>items.shift()\<close> moves
  every item one position down. Insert four turns a, b, c, d of 1365 tokens each into
  the reference store: a gets the label 0; the insert of d evicts a and reuses the
  label 2 of c. A query for the content of a then gets the labels 0, 1 and 2 from the
  index and returns b, c and d: the label 0 of the evicted a comes back and is resolved
  to b, the label 1 of b to c, and c, which is still live, has no label of its own any
  more.
\<close>

theorem positional_ids_drift:
  "run scan_lib [AddContext (Item ''user'' (Str (replicate 1365 CHR ''a'')))] scan_store
     = scan_state [drift_point 0 CHR ''a''] [drift_turn CHR ''a''] 1365
   \<and> run scan_lib (map (\<lambda>c. AddContext (Item ''user'' (Str (replicate 1365 c))))
          [CHR ''a'', CHR ''b'', CHR ''c'', CHR ''d'']) scan_store = drift_store
   \<and> points (index drift_store)
       = [drift_point 0 CHR ''a'', drift_point 1 CHR ''b'', drift_point 2 CHR ''d'']
   \<and> items drift_store = [drift_turn CHR ''b'', drift_turn CHR ''c'', drift_turn CHR ''d'']
   \<and> searchKnn scan_lib (byte_vector (replicate 1365 CHR ''a''))
         (min 5 (length (items drift_store))) (index drift_store) = Neighbors [0, 1, 2]
   \<and> resolve (items drift_store) 0 = drift_turn CHR ''b''
   \<and> resolve (items drift_store) 1 = drift_turn CHR ''c''
   \<and> resolve (items drift_store) 2 = drift_turn CHR ''d''
   \<and> getRelevantContext scan_lib (Str (replicate 1365 CHR ''a'')) 5 drift_store
       = [drift_turn CHR ''b'', drift_turn CHR ''c'', drift_turn CHR ''d'']"
proof -
  have r1: "run scan_lib [AddContext (Item ''user'' (Str (replicate 1365 CHR ''a'')))] scan_store
     = scan_state [drift_point 0 CHR ''a''] [drift_turn CHR ''a''] 1365"
    by (simp add: run_def drift_step1)
  have r4: "run scan_lib (map (\<lambda>c. AddContext (Item ''user'' (Str (replicate 1365 c))))
          [CHR ''a'', CHR ''b'', CHR ''c'', CHR ''d'']) scan_store = drift_store"
    by (simp only: list.map run_Cons run_Nil step_addContext [OF drift_step1]
        step_addContext [OF drift_step2] step_addContext [OF drift_step3]
        step_addContext [OF drift_step4])
  have st: "points (index drift_store)
       = [drift_point 0 CHR ''a'', drift_point 1 CHR ''b'', drift_point 2 CHR ''d'']"
    "items drift_store = [drift_turn CHR ''b'', drift_turn CHR ''c'', drift_turn CHR ''d'']"
    "index drift_store
       = scan_index_of [drift_point 0 CHR ''a'', drift_point 1 CHR ''b'', drift_point 2 CHR ''d'']"
    "encoder drift_store = byte_encoder"
    by (simp_all add: drift_store_def scan_state_def scan_index_of_def)
  have k: "min 5 (length (items drift_store)) = 3" and ne: "items drift_store \<noteq> []"
    by (simp_all add: st)
  have res: "resolve (items drift_store) 0 = drift_turn CHR ''b''"
    "resolve (items drift_store) 1 = drift_turn CHR ''c''"
    "resolve (items drift_store) 2 = drift_turn CHR ''d''"
    by (simp_all add: st resolve_def)
  have knn: "searchKnn scan_lib (byte_vector (replicate 1365 CHR ''a''))
         (min 5 (length (items drift_store))) (index drift_store) = Neighbors [0, 1, 2]"
    using drift_search by (simp add: k st(3) scan_lib_def)
  then have "getRelevantContext scan_lib (Str (replicate 1365 CHR ''a'')) 5 drift_store
       = map (resolve (items drift_store)) [0, 1, 2]"
    by (simp add: getRelevantContext_def getRelevantContext_try_def ne st(4) textToVector_byte)
  with res have "getRelevantContext scan_lib (Str (replicate 1365 CHR ''a'')) 5 drift_store
       = [drift_turn CHR ''b'', drift_turn CHR ''c'', drift_turn CHR ''d'']" by simp
  with r1 r4 st(1,2) res knn show ?thesis by blast
qed

end
